theory Spec2Isabelle
  imports Complex_Main "HOL-Library.Char_ord" "HOL-Library.List_Lexorder" "HOL-Library.Log_Nat"
begin

section \<open>Data model: the DataFrame of \<^verbatim>\<open>app.py\<close>\<close>

text \<open>
  \<^verbatim>\<open>app.py\<close> is a Streamlit script over one pandas DataFrame. A cell of the frame
  that \<^verbatim>\<open>pd.read_csv\<close> returns is a string (object column), a number (numeric
  column) or the missing marker NaN. Numbers are the rationals that the float64 values
  denote: comparison and truncation are exact on them, and every quotient and product
  that the aggregates compute is rounded to float64 (\<open>fl64\<close> below). The infinities are
  left out.
  A frame is its column labels and its rows; a row gives a cell per label.
\<close>

datatype val = Str string | Num rat

type_synonym cell = "val option"   \<comment> \<open>\<open>None\<close> is NaN\<close>

type_synonym row = "string \<Rightarrow> cell"

record frame =
  columns :: "string list"
  rows :: "row list"

datatype error = KeyError "string list" | TypeError | ValueError | IndexError

subsection \<open>Float64 arithmetic\<close>

text \<open>
  An arithmetic operation on float64 values returns the exact result rounded to the
  nearest number with 53 significant bits, ties to the even one. \<open>rne\<close> rounds a
  rational to the nearest integer, ties to even; \<open>expo x\<close> is the binary exponent of
  \<open>x \<noteq> 0\<close>, the \<open>e\<close> with \<open>2 ^ e \<le> |x| < 2 ^ (e + 1)\<close>. The exponent is not bounded:
  overflow and subnormal numbers are outside the model.
\<close>

definition rne :: "rat \<Rightarrow> int" where
  "rne q =
     (if q - of_int \<lfloor>q\<rfloor> < 1 / 2 then \<lfloor>q\<rfloor>
      else if 1 / 2 < q - of_int \<lfloor>q\<rfloor> then \<lfloor>q\<rfloor> + 1
      else if even \<lfloor>q\<rfloor> then \<lfloor>q\<rfloor> else \<lfloor>q\<rfloor> + 1)"

definition expo :: "rat \<Rightarrow> int" where
  "expo x =
     (if 1 \<le> \<bar>x\<bar> then bitlen \<lfloor>\<bar>x\<bar>\<rfloor> - 1
      else - bitlen (\<lceil>1 / \<bar>x\<bar>\<rceil> - 1))"

definition fl64 :: "rat \<Rightarrow> rat" where
  "fl64 x =
     (if x = 0 then 0
      else of_int (rne (x / 2 powi (expo x - 52))) * 2 powi (expo x - 52))"

text \<open>
  Four things belong to pandas and not to the script; the model takes them as
  parameters: how \<^verbatim>\<open>astype(str)\<close> prints a number, which strings
  \<^verbatim>\<open>pd.to_numeric\<close> parses (\<open>None\<close>: the string is not a number), and the float64
  sum of a list of numbers as \<^verbatim>\<open>Series.mean()\<close> and as \<^verbatim>\<open>groupby(...).mean()\<close>
  accumulate it (the order of the additions and their compensation are pandas' own).
\<close>

record pandas =
  str_of_num :: "rat \<Rightarrow> string"
  num_of_str :: "string \<Rightarrow> rat option"
  series_sum :: "rat list \<Rightarrow> rat"
  group_sum :: "rat list \<Rightarrow> rat"

subsection \<open>Ordering of values (\<^verbatim>\<open>sorted\<close>, \<^verbatim>\<open>sort_index\<close>)\<close>

text \<open>
  Strings are ordered as Python orders them (lexicographically by code point), numbers
  by value. Python does not compare a number with a string; the order below puts
  numbers first only to be total, and \<open>py_sorted\<close> raises on a mixed list as Python does.
\<close>

fun val_le :: "val \<Rightarrow> val \<Rightarrow> bool" where
  "val_le (Num a) (Num b) = (a \<le> b)"
| "val_le (Num a) (Str t) = True"
| "val_le (Str s) (Num b) = False"
| "val_le (Str s) (Str t) = (s \<le> t)"

instantiation val :: linorder
begin

definition less_eq_val :: "val \<Rightarrow> val \<Rightarrow> bool" where
  "less_eq_val x y = val_le x y"

definition less_val :: "val \<Rightarrow> val \<Rightarrow> bool" where
  "less_val x y = (val_le x y \<and> \<not> val_le y x)"

instance
proof
  fix x y z :: val
  show "(x < y) = (x \<le> y \<and> \<not> y \<le> x)"
    by (simp add: less_val_def less_eq_val_def)
  show "x \<le> x"
    by (cases x) (simp_all add: less_eq_val_def)
  show "x \<le> y \<Longrightarrow> y \<le> z \<Longrightarrow> x \<le> z"
    by (cases x; cases y; cases z) (auto simp: less_eq_val_def)
  show "x \<le> y \<Longrightarrow> y \<le> x \<Longrightarrow> x = y"
    by (cases x; cases y) (auto simp: less_eq_val_def)
  show "x \<le> y \<or> y \<le> x"
    by (cases x; cases y) (auto simp: less_eq_val_def)
qed

end

subsection \<open>Series operations used by the script\<close>

text \<open>\<^verbatim>\<open>str.strip()\<close>: leading and trailing whitespace removed (the ASCII whitespace of
  Python's \<^verbatim>\<open>str.isspace\<close>; strings are byte lists here).\<close>

definition is_space :: "char \<Rightarrow> bool" where
  "is_space c = (of_char c \<in> {9, 10, 11, 12, 13, 28, 29, 30, 31, 32 :: nat})"

definition strip :: "string \<Rightarrow> string" where
  "strip s = rev (dropWhile is_space (rev (dropWhile is_space s)))"

text \<open>\<^verbatim>\<open>astype(str)\<close>: a string stays, a number is printed, NaN becomes the string
  \<^verbatim>\<open>"nan"\<close> (object columns of pandas before the dedicated string dtype).\<close>

definition astype_str :: "pandas \<Rightarrow> cell \<Rightarrow> string" where
  "astype_str P c =
     (case c of None \<Rightarrow> ''nan'' | Some (Str s) \<Rightarrow> s | Some (Num x) \<Rightarrow> str_of_num P x)"

text \<open>\<^verbatim>\<open>df[c].astype(str).str.strip()\<close> on one cell.\<close>

definition clean_str :: "pandas \<Rightarrow> cell \<Rightarrow> cell" where
  "clean_str P c = Some (Str (strip (astype_str P c)))"

text \<open>\<^verbatim>\<open>pd.to_numeric(..., errors="coerce")\<close> on one cell.\<close>

definition to_numeric :: "pandas \<Rightarrow> cell \<Rightarrow> cell" where
  "to_numeric P c =
     (case c of
        None \<Rightarrow> None
      | Some (Num x) \<Rightarrow> Some (Num x)
      | Some (Str s) \<Rightarrow> (case num_of_str P s of None \<Rightarrow> None | Some x \<Rightarrow> Some (Num x)))"

text \<open>\<^verbatim>\<open>df[c] = f(df[c])\<close> for an elementwise \<open>f\<close>: reading an absent column raises
  \<^verbatim>\<open>KeyError\<close>; assigning to a present one keeps the labels.\<close>

definition map_col :: "(cell \<Rightarrow> cell) \<Rightarrow> string \<Rightarrow> frame \<Rightarrow> error + frame" where
  "map_col f c df =
     (if c \<in> set (columns df)
      then Inr (df\<lparr>rows := map (\<lambda>r. r(c := f (r c))) (rows df)\<rparr>)
      else Inl (KeyError [c]))"

text \<open>The \<^verbatim>\<open>for col in [...]\<close> loop of \<open>load_data\<close>: the first absent column raises.\<close>

fun coerce_cols :: "pandas \<Rightarrow> string list \<Rightarrow> frame \<Rightarrow> error + frame" where
  "coerce_cols P [] df = Inr df"
| "coerce_cols P (c # cs) df =
     (case map_col (to_numeric P) c df of
        Inl e \<Rightarrow> Inl e
      | Inr df' \<Rightarrow> coerce_cols P cs df')"

definition numeric_cols :: "string list" where
  "numeric_cols = [''performance_score'', ''salary'', ''average_work_hours'', ''age'']"

text \<open>\<open>load_data\<close> (lines 43-54), applied to the frame that \<^verbatim>\<open>pd.read_csv\<close> returned.\<close>

definition load_data :: "pandas \<Rightarrow> frame \<Rightarrow> error + frame" where
  "load_data P df =
     (case map_col (clean_str P) ''department'' df of
        Inl e \<Rightarrow> Inl e
      | Inr df1 \<Rightarrow>
          (case map_col (clean_str P) ''gender'' df1 of
             Inl e \<Rightarrow> Inl e
           | Inr df2 \<Rightarrow> coerce_cols P numeric_cols df2))"

section \<open>The script after the load\<close>

subsection \<open>Validation of the required columns (lines 59-63)\<close>

definition required_cols :: "string list" where
  "required_cols =
     [''gender'', ''performance_score'', ''marital_status'', ''average_work_hours'',
      ''age'', ''salary'']"

text \<open>\<^verbatim>\<open>missing = [c for c in required_cols if c not in df.columns]\<close>\<close>

definition missing :: "frame \<Rightarrow> string list" where
  "missing df = filter (\<lambda>c. c \<notin> set (columns df)) required_cols"

subsection \<open>Series helpers\<close>

text \<open>\<^verbatim>\<open>df[c]\<close>: the column as a list of cells, or \<^verbatim>\<open>KeyError\<close>.\<close>

definition getitem :: "frame \<Rightarrow> string \<Rightarrow> error + cell list" where
  "getitem df c =
     (if c \<in> set (columns df) then Inr (map (\<lambda>r. r c) (rows df)) else Inl (KeyError [c]))"

fun dropna :: "cell list \<Rightarrow> val list" where
  "dropna [] = []"
| "dropna (None # cs) = dropna cs"
| "dropna (Some v # cs) = v # dropna cs"

text \<open>\<^verbatim>\<open>unique()\<close>: the distinct values in order of first appearance.\<close>

definition unique :: "'a list \<Rightarrow> 'a list" where
  "unique xs = rev (remdups (rev xs))"

fun is_str :: "val \<Rightarrow> bool" where
  "is_str (Str s) = True"
| "is_str (Num x) = False"

fun is_str_cell :: "cell \<Rightarrow> bool" where
  "is_str_cell None = False"
| "is_str_cell (Some v) = is_str v"

text \<open>Python's \<^verbatim>\<open>sorted\<close> on the values of a column: \<^verbatim>\<open>TypeError\<close> when a string
  meets a number.\<close>

definition py_sorted :: "val list \<Rightarrow> error + val list" where
  "py_sorted vs =
     (if list_all is_str vs \<or> list_all (\<lambda>v. \<not> is_str v) vs then Inr (sort vs)
      else Inl TypeError)"

text \<open>The numbers of a numeric column, NaN skipped.\<close>

fun numbers :: "cell list \<Rightarrow> rat list" where
  "numbers [] = []"
| "numbers (Some (Num x) # cs) = x # numbers cs"
| "numbers (c # cs) = numbers cs"

text \<open>Python's \<^verbatim>\<open>int(x)\<close> on a float: truncation towards zero.\<close>

definition py_int :: "rat \<Rightarrow> int" where
  "py_int x = (if 0 \<le> x then \<lfloor>x\<rfloor> else \<lceil>x\<rceil>)"

subsection \<open>Controls (lines 72-92)\<close>

text \<open>\<^verbatim>\<open>sorted(df[c].dropna().unique().tolist())\<close>\<close>

definition options :: "frame \<Rightarrow> string \<Rightarrow> error + val list" where
  "options df c =
     (case getitem df c of
        Inl e \<Rightarrow> Inl e
      | Inr xs \<Rightarrow> py_sorted (unique (dropna xs)))"

definition gender_options :: "frame \<Rightarrow> error + val list" where
  "gender_options df = options df ''gender''"

definition marital_options :: "frame \<Rightarrow> error + val list" where
  "marital_options df = options df ''marital_status''"

text \<open>
  \<^verbatim>\<open>min_score = int(np.nanmin(df["performance_score"]))\<close> and \<open>max_score\<close> likewise.
  On a column without any number \<^verbatim>\<open>np.nanmin\<close> raises (empty column) or returns NaN,
  which \<^verbatim>\<open>int\<close> refuses: \<^verbatim>\<open>ValueError\<close> both times. A column holding strings
  cannot be reduced: \<^verbatim>\<open>TypeError\<close>.
\<close>

definition score_bounds :: "frame \<Rightarrow> error + int \<times> int" where
  "score_bounds df =
     (case getitem df ''performance_score'' of
        Inl e \<Rightarrow> Inl e
      | Inr xs \<Rightarrow>
          if list_ex is_str_cell xs then Inl TypeError
          else if numbers xs = [] then Inl ValueError
          else Inr (py_int (Min (set (numbers xs))), py_int (Max (set (numbers xs)))))"

text \<open>What the three widgets return is the user's choice among what they offer: a
  function of the options (of the bounds, for the slider). The checks that Streamlit
  itself makes on the arguments of a widget are not modelled.\<close>

record ui =
  gender_sel :: "val list \<Rightarrow> val list"
  score_range :: "int \<times> int \<Rightarrow> int \<times> int"
  marital_sel :: "val list \<Rightarrow> val list"

text \<open>The first run of the script: every option selected, the whole range.\<close>

definition defaults :: ui where
  "defaults = \<lparr>gender_sel = (\<lambda>opts. opts), score_range = (\<lambda>b. b), marital_sel = (\<lambda>opts. opts)\<rparr>"

subsection \<open>The filter (lines 95-99)\<close>

text \<open>\<^verbatim>\<open>Series.isin\<close> on one cell; the selections hold values, never NaN.\<close>

definition isin :: "cell \<Rightarrow> val list \<Rightarrow> bool" where
  "isin c sel = (case c of None \<Rightarrow> False | Some v \<Rightarrow> v \<in> set sel)"

text \<open>\<^verbatim>\<open>Series.between(lo, hi)\<close> on one cell of a numeric column: inclusive, false on NaN.\<close>

definition between :: "cell \<Rightarrow> int \<Rightarrow> int \<Rightarrow> bool" where
  "between c lo hi =
     (case c of Some (Num x) \<Rightarrow> of_int lo \<le> x \<and> x \<le> of_int hi | _ \<Rightarrow> False)"

definition keep :: "val list \<Rightarrow> int \<times> int \<Rightarrow> val list \<Rightarrow> row \<Rightarrow> bool" where
  "keep gsel rng msel r =
     (isin (r ''gender'') gsel \<and>
      between (r ''performance_score'') (fst rng) (snd rng) \<and>
      isin (r ''marital_status'') msel)"

text \<open>
  \<^verbatim>\<open>df_f = df[mask].copy()\<close>. The three columns are read in the order of the source;
  comparing a string of the score column with the integer bounds raises \<^verbatim>\<open>TypeError\<close>.
\<close>

definition df_f :: "frame \<Rightarrow> val list \<Rightarrow> int \<times> int \<Rightarrow> val list \<Rightarrow> error + frame" where
  "df_f df gsel rng msel =
     (if ''gender'' \<notin> set (columns df) then Inl (KeyError [''gender''])
      else if ''performance_score'' \<notin> set (columns df) then Inl (KeyError [''performance_score''])
      else if list_ex (\<lambda>r. is_str_cell (r ''performance_score'')) (rows df) then Inl TypeError
      else if ''marital_status'' \<notin> set (columns df) then Inl (KeyError [''marital_status''])
      else Inr (df\<lparr>rows := filter (keep gsel rng msel) (rows df)\<rparr>))"

subsection \<open>Aggregates over the filtered view\<close>

text \<open>A float64 mean: the accumulated sum \<open>S ns\<close> divided by the number of values, the
  quotient rounded; NaN when there is no value.\<close>

definition mean_of :: "(rat list \<Rightarrow> rat) \<Rightarrow> rat list \<Rightarrow> cell" where
  "mean_of S ns = (if ns = [] then None else Some (Num (fl64 (S ns / of_nat (length ns)))))"

text \<open>\<^verbatim>\<open>Series.mean()\<close>: NaN skipped; NaN when no number is left; a string cannot be
  averaged.\<close>

definition series_mean :: "pandas \<Rightarrow> cell list \<Rightarrow> error + cell" where
  "series_mean P xs =
     (if list_ex is_str_cell xs then Inl TypeError else Inr (mean_of (series_sum P) (numbers xs)))"

definition col_mean :: "pandas \<Rightarrow> frame \<Rightarrow> string \<Rightarrow> error + cell" where
  "col_mean P df c = (case getitem df c of Inl e \<Rightarrow> Inl e | Inr xs \<Rightarrow> series_mean P xs)"

text \<open>
  \<^verbatim>\<open>Series.value_counts()\<close>: NaN dropped, one entry per distinct value with its number
  of occurrences, sorted by descending count. pandas leaves the order among equal
  counts open; here it is the order of first appearance.
\<close>

definition value_counts :: "cell list \<Rightarrow> (val \<times> nat) list" where
  "value_counts xs =
     sort_key (\<lambda>p. - int (snd p))
       (map (\<lambda>v. (v, count_list (dropna xs) v)) (unique (dropna xs)))"

text \<open>\<^verbatim>\<open>value_counts(normalize=True) * 100\<close>: each count divided by the number of
  non-missing cells, then multiplied by 100; two float64 operations, each rounded.\<close>

definition value_counts_pct :: "cell list \<Rightarrow> (val \<times> rat) list" where
  "value_counts_pct xs =
     map (\<lambda>p. (fst p, fl64 (fl64 (of_nat (snd p) / of_nat (length (dropna xs))) * 100)))
       (value_counts xs)"

text \<open>\<^verbatim>\<open>sort_index()\<close>: ascending by key; keys of both kinds cannot be compared.\<close>

definition sort_index :: "(val \<times> 'a) list \<Rightarrow> error + (val \<times> 'a) list" where
  "sort_index kvs =
     (if list_all (\<lambda>p. is_str (fst p)) kvs \<or> list_all (\<lambda>p. \<not> is_str (fst p)) kvs
      then Inr (sort_key fst kvs)
      else Inl TypeError)"

text \<open>
  \<^verbatim>\<open>df_f.groupby(g)[v].mean().sort_index()\<close>: rows with a missing key belong to no
  group; each distinct key gets the float64 mean of its rows' \<open>v\<close>, NaN skipped.
\<close>

definition grouped_mean ::
  "pandas \<Rightarrow> frame \<Rightarrow> string \<Rightarrow> string \<Rightarrow> error + (val \<times> cell) list" where
  "grouped_mean P df g v =
     (if g \<notin> set (columns df) then Inl (KeyError [g])
      else if v \<notin> set (columns df) then Inl (KeyError [v])
      else if list_ex (\<lambda>r. is_str_cell (r v)) (rows df) then Inl TypeError
      else sort_index
             (map (\<lambda>k. (k, mean_of (group_sum P)
                              (numbers (map (\<lambda>r. r v) (filter (\<lambda>r. r g = Some k) (rows df))))))
                (unique (dropna (map (\<lambda>r. r g) (rows df))))))"

text \<open>Line 140.\<close>

definition avg_hours :: "pandas \<Rightarrow> frame \<Rightarrow> error + (val \<times> cell) list" where
  "avg_hours P view = grouped_mean P view ''gender'' ''average_work_hours''"

text \<open>Line 163.\<close>

definition avg_by_score :: "pandas \<Rightarrow> frame \<Rightarrow> error + (val \<times> cell) list" where
  "avg_by_score P view = grouped_mean P view ''performance_score'' ''average_work_hours''"

text \<open>Line 129: \<^verbatim>\<open>df_f["performance_score"].value_counts().sort_index()\<close>\<close>

definition counts :: "frame \<Rightarrow> error + (val \<times> nat) list" where
  "counts view =
     (case getitem view ''performance_score'' of
        Inl e \<Rightarrow> Inl e
      | Inr xs \<Rightarrow> sort_index (value_counts xs))"

text \<open>Line 191.\<close>

definition perf_counts :: "frame \<Rightarrow> error + (val \<times> rat) list" where
  "perf_counts view =
     (case getitem view ''performance_score_desc'' of
        Inl e \<Rightarrow> Inl e
      | Inr xs \<Rightarrow> Inr (value_counts_pct xs))"

subsection \<open>What the page shows\<close>

text \<open>
  One element per output call of the script that depends on the data; static headings
  and labels are left out, and so is the formatting of numbers. The correlation of
  line 195 is not modelled (it reads two columns that the metrics above it have read).
\<close>

datatype element =
    ErrorMsg "string list"
  | SidebarCount nat nat
  | WarningMsg
  | MetricCount nat
  | MetricMean string cell
  | ScoreDistribution "(val \<times> nat) list"
  | HoursByGender "(val \<times> cell) list"
  | AgeSalary "(cell \<times> cell) list"
  | HoursByScore "(val \<times> cell) list"
  | DataTable "cell list list"
  | Download frame
  | Conclusions val rat cell cell cell

datatype status = Finished | Stopped | Raised error

type_synonym outcome = "element list \<times> status"

text \<open>Statements run in order; the first that raises ends the pass, and what was shown
  before it stays.\<close>

fun run_sections :: "(error + element) list \<Rightarrow> outcome" where
  "run_sections [] = ([], Finished)"
| "run_sections (Inl e # ss) = ([], Raised e)"
| "run_sections (Inr x # ss) = (x # fst (run_sections ss), snd (run_sections ss))"

definition metric_mean :: "pandas \<Rightarrow> frame \<Rightarrow> string \<Rightarrow> error + element" where
  "metric_mean P view c =
     (case col_mean P view c of Inl e \<Rightarrow> Inl e | Inr m \<Rightarrow> Inr (MetricMean c m))"

definition chart :: "('a \<Rightarrow> element) \<Rightarrow> error + 'a \<Rightarrow> error + element" where
  "chart mk d = (case d of Inl e \<Rightarrow> Inl e | Inr x \<Rightarrow> Inr (mk x))"

text \<open>Line 153: \<^verbatim>\<open>ax.scatter(df_f["age"], df_f["salary"])\<close>\<close>

definition age_salary :: "frame \<Rightarrow> error + (cell \<times> cell) list" where
  "age_salary view =
     (case getitem view ''age'' of
        Inl e \<Rightarrow> Inl e
      | Inr a \<Rightarrow> (case getitem view ''salary'' of Inl e \<Rightarrow> Inl e | Inr s \<Rightarrow> Inr (zip a s)))"

definition table_cols :: "string list" where
  "table_cols =
     [''id_employee'', ''name_employee'', ''gender'', ''marital_status'', ''department'',
      ''position'', ''performance_score'', ''salary'', ''average_work_hours'', ''age'',
      ''employment_status'']"

text \<open>Lines 175-179: \<^verbatim>\<open>df_f[[...]]\<close> raises \<^verbatim>\<open>KeyError\<close> with the labels it does not find.\<close>

definition data_table :: "frame \<Rightarrow> error + cell list list" where
  "data_table view =
     (if list_all (\<lambda>c. c \<in> set (columns view)) table_cols
      then Inr (map (\<lambda>r. map r table_cols) (rows view))
      else Inl (KeyError (filter (\<lambda>c. c \<notin> set (columns view)) table_cols)))"

text \<open>Lines 191-204: \<^verbatim>\<open>perf_counts.index[0]\<close> raises \<^verbatim>\<open>IndexError\<close> on an empty result.\<close>

definition conclusions :: "pandas \<Rightarrow> frame \<Rightarrow> error + element" where
  "conclusions P view =
     (case perf_counts view of
        Inl e \<Rightarrow> Inl e
      | Inr [] \<Rightarrow> Inl IndexError
      | Inr ((top_desc, top_pct) # _) \<Rightarrow>
          (case col_mean P view ''performance_score'' of
             Inl e \<Rightarrow> Inl e
           | Inr m1 \<Rightarrow>
               (case col_mean P view ''satisfaction_level'' of
                  Inl e \<Rightarrow> Inl e
                | Inr m2 \<Rightarrow>
                    (case col_mean P view ''absences'' of
                       Inl e \<Rightarrow> Inl e
                     | Inr m3 \<Rightarrow> Inr (Conclusions top_desc top_pct m1 m2 m3)))))"

text \<open>Lines 111-204, for a view that is not empty.\<close>

definition sections :: "pandas \<Rightarrow> frame \<Rightarrow> (error + element) list" where
  "sections P view =
     [Inr (MetricCount (length (rows view))),
      metric_mean P view ''performance_score'',
      metric_mean P view ''satisfaction_level'',
      metric_mean P view ''absences'',
      chart ScoreDistribution (counts view),
      chart HoursByGender (avg_hours P view),
      chart AgeSalary (age_salary view),
      chart HoursByScore (avg_by_score P view),
      chart DataTable (data_table view),
      Inr (Download view),
      conclusions P view]"

text \<open>Lines 101-204: the count in the sidebar, then the warning and \<^verbatim>\<open>st.stop()\<close> on an
  empty view, the page otherwise.\<close>

definition present :: "pandas \<Rightarrow> frame \<Rightarrow> frame \<Rightarrow> outcome" where
  "present P df view =
     (if length (rows view) = 0
      then ([SidebarCount (length (rows view)) (length (rows df)), WarningMsg], Stopped)
      else (SidebarCount (length (rows view)) (length (rows df)) # fst (run_sections (sections P view)),
            snd (run_sections (sections P view))))"

text \<open>Lines 69-99: the controls are built, the user chooses, the table is filtered.\<close>

definition filtered_view :: "ui \<Rightarrow> frame \<Rightarrow> error + frame" where
  "filtered_view U df =
     (case gender_options df of
        Inl e \<Rightarrow> Inl e
      | Inr gopts \<Rightarrow>
          (case score_bounds df of
             Inl e \<Rightarrow> Inl e
           | Inr b \<Rightarrow>
               (case marital_options df of
                  Inl e \<Rightarrow> Inl e
                | Inr mopts \<Rightarrow>
                    df_f df (gender_sel U gopts) (score_range U b) (marital_sel U mopts))))"

text \<open>Lines 69-204.\<close>

definition after_validation :: "pandas \<Rightarrow> ui \<Rightarrow> frame \<Rightarrow> outcome" where
  "after_validation P U df =
     (case filtered_view U df of
        Inl e \<Rightarrow> ([], Raised e)
      | Inr view \<Rightarrow> present P df view)"

text \<open>Lines 56-204: one pass of the script over the frame read from the file.\<close>

definition script :: "pandas \<Rightarrow> ui \<Rightarrow> frame \<Rightarrow> outcome" where
  "script P U raw =
     (case load_data P raw of
        Inl e \<Rightarrow> ([], Raised e)
      | Inr df \<Rightarrow>
          if missing df \<noteq> [] then ([ErrorMsg (missing df)], Stopped)
          else after_validation P U df)"

section \<open>Auxiliary definitions for the statements\<close>

text \<open>The columns \<open>load_data\<close> reads (lines 47-52), in the order it reads them.\<close>

definition loader_cols :: "string list" where
  "loader_cols = ''department'' # ''gender'' # numeric_cols"

text \<open>What \<open>load_data\<close> does to one row.\<close>

definition load_row :: "pandas \<Rightarrow> row \<Rightarrow> row" where
  "load_row P r =
     (\<lambda>c. if c = ''department'' \<or> c = ''gender'' then clean_str P (r c)
          else if c \<in> set numeric_cols then to_numeric P (r c)
          else r c)"

subsection \<open>Example tables\<close>

text \<open>A row of a file: the listed cells, every other cell empty.\<close>

definition mk_row :: "(string \<times> val) list \<Rightarrow> row" where
  "mk_row kvs = map_of kvs"

definition employee_cols :: "string list" where
  "employee_cols =
     [''id_employee'', ''name_employee'', ''gender'', ''marital_status'', ''department'',
      ''position'', ''performance_score'', ''performance_score_desc'', ''salary'',
      ''average_work_hours'', ''age'', ''satisfaction_level'', ''absences'',
      ''employment_status'']"

text \<open>
  Three employees. The first gender is stored as \<^verbatim>\<open>"M "\<close>, the third is empty; the
  salary column holds text in its second row, so the whole column is read as strings.
\<close>

definition ex_raw :: frame where
  "ex_raw =
     \<lparr>columns = employee_cols,
      rows =
        [mk_row [(''id_employee'', Num 1), (''gender'', Str ''M ''), (''marital_status'', Str ''Single''),
                 (''department'', Str '' Sales''), (''performance_score'', Num 3),
                 (''performance_score_desc'', Str ''Meets''), (''salary'', Str ''1000''),
                 (''average_work_hours'', Num 40), (''age'', Num 30),
                 (''satisfaction_level'', Num 4), (''absences'', Num 2)],
         mk_row [(''id_employee'', Num 2), (''gender'', Str ''F''), (''marital_status'', Str ''Married''),
                 (''department'', Str ''IT''), (''performance_score'', Num 4),
                 (''performance_score_desc'', Str ''Exceeds''), (''salary'', Str ''n/a''),
                 (''average_work_hours'', Num 30), (''age'', Num 41),
                 (''satisfaction_level'', Num 3), (''absences'', Num 0)],
         mk_row [(''id_employee'', Num 3), (''marital_status'', Str ''Single''),
                 (''department'', Str ''IT''), (''performance_score'', Num 2),
                 (''performance_score_desc'', Str ''Meets''), (''salary'', Str ''1200''),
                 (''average_work_hours'', Num 38),
                 (''satisfaction_level'', Num 5), (''absences'', Num 1)]]\<rparr>"

text \<open>
  The compensated summation of pandas' \<^verbatim>\<open>group_mean\<close>, every operation rounded:
  \<^verbatim>\<open>y = val - c; t = sumx + y; c = t - sumx - y; sumx = t\<close>.
\<close>

definition kahan_step :: "rat \<times> rat \<Rightarrow> rat \<Rightarrow> rat \<times> rat" where
  "kahan_step sc v =
     (let y = fl64 (v - snd sc); t = fl64 (fst sc + y)
      in (t, fl64 (fl64 (t - fst sc) - y)))"

definition kahan_sum :: "rat list \<Rightarrow> rat" where
  "kahan_sum ns = fst (foldl kahan_step (0, 0) ns)"

text \<open>A sum accumulated from left to right, every addition rounded.\<close>

definition left_sum :: "rat list \<Rightarrow> rat" where
  "left_sum ns = foldl (\<lambda>s x. fl64 (s + x)) 0 ns"

text \<open>The parameters of pandas for the examples: the two conversions on the cells that
  the examples hold, and the two sums. The numbers that the examples add are small
  integers, which every order of additions sums exactly.\<close>

definition ex_pandas :: pandas where
  "ex_pandas =
     \<lparr>str_of_num = (\<lambda>x. ''0''),
      num_of_str = (\<lambda>s. if s = ''1000'' then Some 1000 else if s = ''1200'' then Some 1200 else None),
      series_sum = left_sum,
      group_sum = kahan_sum\<rparr>"

text \<open>\<open>ex_raw\<close> after the load: \<^verbatim>\<open>"M "\<close> and \<^verbatim>\<open>" Sales"\<close> trimmed, the empty gender
  \<^verbatim>\<open>"nan"\<close>, the salaries parsed.\<close>

definition ex_loaded :: frame where
  "ex_loaded = ex_raw\<lparr>rows := map (load_row ex_pandas) (rows ex_raw)\<rparr>"

text \<open>The same file without one column.\<close>

definition drop_col :: "string \<Rightarrow> frame \<Rightarrow> frame" where
  "drop_col c df = df\<lparr>columns := removeAll c (columns df)\<rparr>"

text \<open>The user clears the gender selection and leaves the other two controls alone.\<close>

definition ui_no_gender :: ui where
  "ui_no_gender = defaults\<lparr>gender_sel := (\<lambda>opts. [])\<rparr>"

text \<open>The scenario of the specification: gender \<open>{"M"}\<close>, scores 2 to 4,
  marital status \<open>{"Single"}\<close>.\<close>

definition ui_scenario :: ui where
  "ui_scenario =
     \<lparr>gender_sel = (\<lambda>opts. [Str ''M'']), score_range = (\<lambda>b. (2, 4)),
      marital_sel = (\<lambda>opts. [Str ''Single''])\<rparr>"

text \<open>Two clean records; the score of the second is not an integer.\<close>

definition ex_half :: frame where
  "ex_half =
     \<lparr>columns = employee_cols,
      rows =
        [mk_row [(''id_employee'', Num 1), (''gender'', Str ''M''), (''marital_status'', Str ''Single''),
                 (''department'', Str ''IT''), (''performance_score'', Num 3),
                 (''performance_score_desc'', Str ''Meets''), (''salary'', Num 1000),
                 (''average_work_hours'', Num 40), (''age'', Num 30),
                 (''satisfaction_level'', Num 4), (''absences'', Num 2)],
         mk_row [(''id_employee'', Num 2), (''gender'', Str ''F''), (''marital_status'', Str ''Married''),
                 (''department'', Str ''IT''), (''performance_score'', Num (9 / 2)),
                 (''performance_score_desc'', Str ''Exceeds''), (''salary'', Num 1100),
                 (''average_work_hours'', Num 38), (''age'', Num 35),
                 (''satisfaction_level'', Num 5), (''absences'', Num 0)]]\<rparr>"

text \<open>Two clean records whose score description is empty in the file.\<close>

definition ex_nodesc :: frame where
  "ex_nodesc =
     \<lparr>columns = employee_cols,
      rows =
        [mk_row [(''id_employee'', Num 1), (''gender'', Str ''M''), (''marital_status'', Str ''Single''),
                 (''department'', Str ''IT''), (''performance_score'', Num 3),
                 (''salary'', Num 1000),
                 (''average_work_hours'', Num 40), (''age'', Num 30),
                 (''satisfaction_level'', Num 4), (''absences'', Num 2)],
         mk_row [(''id_employee'', Num 2), (''gender'', Str ''F''), (''marital_status'', Str ''Married''),
                 (''department'', Str ''IT''), (''performance_score'', Num 4),
                 (''salary'', Num 1100),
                 (''average_work_hours'', Num 38), (''age'', Num 35),
                 (''satisfaction_level'', Num 5), (''absences'', Num 0)]]\<rparr>"



section \<open>Properties of the loader\<close>

lemma to_numeric_idem: "to_numeric P (to_numeric P c) = to_numeric P c"
  by (auto simp: to_numeric_def split: option.splits val.splits)

lemma map_col_Inr:
  "map_col f c df = Inr df' \<longleftrightarrow>
     c \<in> set (columns df) \<and> df' = df\<lparr>rows := map (\<lambda>r. r(c := f (r c))) (rows df)\<rparr>"
  by (auto simp: map_col_def)

lemma map_col_Inl:
  "map_col f c df = Inl e \<longleftrightarrow> c \<notin> set (columns df) \<and> e = KeyError [c]"
  by (auto simp: map_col_def)

lemma coerce_cols_Inr:
  "coerce_cols P cs df = Inr df' \<longleftrightarrow>
     set cs \<subseteq> set (columns df) \<and>
     df' = df\<lparr>rows := map (\<lambda>r c. if c \<in> set cs then to_numeric P (r c) else r c) (rows df)\<rparr>"
proof (induction cs arbitrary: df)
  case Nil
  then show ?case by auto
next
  case (Cons c cs)
  have eq: "(\<lambda>r ca. if ca \<in> set cs then to_numeric P ((r(c := to_numeric P (r c))) ca)
                    else (r(c := to_numeric P (r c))) ca)
          = (\<lambda>r ca. if ca = c \<or> ca \<in> set cs then to_numeric P (r ca) else r ca)"
    by (intro ext) (auto simp: to_numeric_idem)
  show ?case
    by (cases "c \<in> set (columns df)")
       (auto simp: map_col_def Cons.IH comp_def eq)
qed

lemma load_data_Inr:
  "load_data P raw = Inr df \<longleftrightarrow>
     set loader_cols \<subseteq> set (columns raw) \<and> df = raw\<lparr>rows := map (load_row P) (rows raw)\<rparr>"
proof -
  have eq: "(\<lambda>r c. if c \<in> set numeric_cols
                  then to_numeric P (((r(''department'' := clean_str P (r ''department'')))
                         (''gender'' := clean_str P (r ''gender''))) c)
                  else ((r(''department'' := clean_str P (r ''department'')))
                         (''gender'' := clean_str P (r ''gender''))) c)
           = load_row P"
    by (intro ext) (auto simp: load_row_def numeric_cols_def)
  show ?thesis
    by (auto simp: load_data_def map_col_def coerce_cols_Inr loader_cols_def comp_def eq
             split: sum.splits)
qed

lemma last_dropWhile_ne: "dropWhile P xs \<noteq> [] \<Longrightarrow> last (dropWhile P xs) = last xs"
  by (induction xs) (auto split: if_splits)

lemma rev_dropWhile_ne: "dropWhile P (rev t) \<noteq> [] \<Longrightarrow> t \<noteq> []"
  by auto

lemma strip_trimmed:
  "strip s = [] \<or> (\<not> is_space (hd (strip s)) \<and> \<not> is_space (last (strip s)))"
proof (cases "strip s = []")
  case True
  then show ?thesis by simp
next
  case False
  let ?t = "dropWhile is_space s"
  let ?u = "dropWhile is_space (rev ?t)"
  from False have u: "?u \<noteq> []" by (simp add: strip_def)
  then have t: "?t \<noteq> []" by (rule rev_dropWhile_ne)
  have "last (strip s) = hd ?u" using u by (simp add: strip_def last_rev)
  moreover have "\<not> is_space (hd ?u)" using u by (rule hd_dropWhile)
  moreover have "hd (strip s) = last ?u" using u by (simp add: strip_def hd_rev)
  moreover have "last ?u = last (rev ?t)" using u by (rule last_dropWhile_ne)
  moreover have "last (rev ?t) = hd ?t" using t by (simp add: last_rev)
  moreover have "\<not> is_space (hd ?t)" using t by (rule hd_dropWhile)
  ultimately show ?thesis by simp
qed

lemma strip_nan: "strip ''nan'' = ''nan''"
  by (simp add: strip_def is_space_def)

lemma strip_M: "strip ''M '' = ''M''"
  by (simp add: strip_def is_space_def)

lemma load_row_gender: "load_row P r ''gender'' = clean_str P (r ''gender'')"
  by (simp add: load_row_def)

lemma load_row_department: "load_row P r ''department'' = clean_str P (r ''department'')"
  by (simp add: load_row_def)

lemma load_row_numeric: "c \<in> set numeric_cols \<Longrightarrow> load_row P r c = to_numeric P (r c)"
  by (auto simp: load_row_def numeric_cols_def)

lemma load_row_other:
  "c \<notin> set loader_cols \<Longrightarrow> load_row P r c = r c"
  by (auto simp: load_row_def loader_cols_def)

lemma load_data_rows:
  "load_data P raw = Inr df \<Longrightarrow> rows df = map (load_row P) (rows raw)"
  by (simp add: load_data_Inr)

lemma load_data_columns:
  "load_data P raw = Inr df \<Longrightarrow> columns df = columns raw"
  by (simp add: load_data_Inr)


text \<open>
  Claim C6. After the load every \<open>gender\<close> and \<open>department\<close> value is a string without
  leading or trailing whitespace, and a record stored with gender \<^verbatim>\<open>"M "\<close> has gender
  \<^verbatim>\<open>"M"\<close>, which the gender criterion \<open>{"M"}\<close> matches.
\<close>

theorem load_data_trims:
  assumes "load_data P raw = Inr df"
  shows "(\<forall>r\<in>set (rows df). \<forall>c\<in>{''gender'', ''department''}.
            \<exists>s. r c = Some (Str s) \<and> (s = [] \<or> (\<not> is_space (hd s) \<and> \<not> is_space (last s)))) \<and>
         (\<forall>i<length (rows raw). (rows raw ! i) ''gender'' = Some (Str ''M '') \<longrightarrow>
            (rows df ! i) ''gender'' = Some (Str ''M'') \<and>
            isin ((rows df ! i) ''gender'') [Str ''M''])"
proof -
  have rs: "rows df = map (load_row P) (rows raw)" using assms by (rule load_data_rows)
  have a: "\<exists>s. load_row P r c = Some (Str s) \<and> (s = [] \<or> (\<not> is_space (hd s) \<and> \<not> is_space (last s)))"
    if "c \<in> {''gender'', ''department''}" for r c
    using that strip_trimmed [of "astype_str P (r c)"]
    by (auto simp: load_row_gender load_row_department clean_str_def)
  have b: "load_row P r ''gender'' = Some (Str ''M'')" if "r ''gender'' = Some (Str ''M '')" for r
    using that by (simp add: load_row_gender clean_str_def astype_str_def strip_M)
  show ?thesis
  proof (intro conjI ballI allI impI)
    fix r c assume "r \<in> set (rows df)" "c \<in> {''gender'', ''department''}"
    then show "\<exists>s. r c = Some (Str s) \<and> (s = [] \<or> (\<not> is_space (hd s) \<and> \<not> is_space (last s)))"
      using a rs by auto
  next
    fix i assume "i < length (rows raw)" "(rows raw ! i) ''gender'' = Some (Str ''M '')"
    then show "(rows df ! i) ''gender'' = Some (Str ''M'')"
      using b rs by simp
    then show "isin ((rows df ! i) ''gender'') [Str ''M'']"
      by (simp add: isin_def)
  qed
qed

lemma ex_raw_loader_cols: "set loader_cols \<subseteq> set (columns ex_raw)"
  by (simp add: loader_cols_def numeric_cols_def ex_raw_def employee_cols_def)


theorem load_data_trims_witness:
  "\<exists>df. load_data ex_pandas ex_raw = Inr df \<and>
      (rows df ! 0) ''gender'' = Some (Str ''M'') \<and>
      isin ((rows df ! 0) ''gender'') [Str ''M''] \<and>
      (\<exists>s. (rows df ! 0) ''department'' = Some (Str s) \<and>
           (s = [] \<or> (\<not> is_space (hd s) \<and> \<not> is_space (last s))))"
proof -
  obtain df where ld: "load_data ex_pandas ex_raw = Inr df"
    using ex_raw_loader_cols by (auto simp: load_data_Inr)
  have len: "length (rows df) = 3"
    using ld by (simp add: load_data_rows ex_raw_def)
  have g: "(rows ex_raw ! 0) ''gender'' = Some (Str ''M '')"
    by (simp add: ex_raw_def mk_row_def)
  note t = load_data_trims [OF ld]
  have len_raw: "0 < length (rows ex_raw)"
    by (simp add: ex_raw_def)
  have "(rows df ! 0) ''gender'' = Some (Str ''M'') \<and> isin ((rows df ! 0) ''gender'') [Str ''M'']"
    by (rule t [THEN conjunct2, rule_format, OF len_raw g])
  moreover have "rows df ! 0 \<in> set (rows df)"
    using len by simp
  then have "\<exists>s. (rows df ! 0) ''department'' = Some (Str s) \<and>
           (s = [] \<or> (\<not> is_space (hd s) \<and> \<not> is_space (last s)))"
    using t by blast
  ultimately show ?thesis using ld by blast
qed

section \<open>Properties of the controls and the filter\<close>

lemma set_dropna: "set (dropna xs) = {v. Some v \<in> set xs}"
  by (induction xs rule: dropna.induct) auto

lemma set_dropna_map: "set (dropna (map f rs)) = {v. \<exists>r\<in>set rs. f r = Some v}"
  by (force simp: set_dropna image_iff)

lemma set_unique: "set (unique xs) = set xs"
  by (simp add: unique_def)

lemma distinct_unique: "distinct (unique xs)"
  by (simp add: unique_def)

lemma py_sorted_Inr:
  "py_sorted vs = Inr ws \<Longrightarrow> ws = sort vs"
  by (auto simp: py_sorted_def split: if_splits)

lemma options_Inr:
  assumes "options df c = Inr opts"
  shows "c \<in> set (columns df)"
    and "set opts = {v. \<exists>r\<in>set (rows df). r c = Some v}"
    and "sorted opts" and "distinct opts"
proof -
  from assms have c: "c \<in> set (columns df)"
    by (auto simp: options_def getitem_def split: if_splits)
  then have "py_sorted (unique (dropna (map (\<lambda>r. r c) (rows df)))) = Inr opts"
    using assms by (simp add: options_def getitem_def)
  then have eq: "opts = sort (unique (dropna (map (\<lambda>r. r c) (rows df))))"
    by (rule py_sorted_Inr)
  show "c \<in> set (columns df)" by (rule c)
  show "set opts = {v. \<exists>r\<in>set (rows df). r c = Some v}"
    by (simp add: eq set_unique set_dropna_map)
  show "sorted opts" by (simp add: eq)
  show "distinct opts" by (simp add: eq distinct_unique)
qed

lemma options_strings:
  assumes "c \<in> set (columns df)" and "\<forall>r\<in>set (rows df). \<forall>v. r c = Some v \<longrightarrow> is_str v"
  shows "\<exists>opts. options df c = Inr opts"
proof -
  have "list_all is_str (unique (dropna (map (\<lambda>r. r c) (rows df))))"
    using assms(2) by (auto simp: list_all_iff set_unique set_dropna_map)
  then show ?thesis using assms(1)
    by (simp add: options_def getitem_def py_sorted_def)
qed

lemma df_f_Inr:
  "df_f df gsel rng msel = Inr view \<longleftrightarrow>
     ''gender'' \<in> set (columns df) \<and> ''performance_score'' \<in> set (columns df) \<and>
     ''marital_status'' \<in> set (columns df) \<and>
     \<not> list_ex (\<lambda>r. is_str_cell (r ''performance_score'')) (rows df) \<and>
     view = df\<lparr>rows := filter (keep gsel rng msel) (rows df)\<rparr>"
  by (auto simp: df_f_def)

lemma isin_iff: "isin c sel \<longleftrightarrow> (\<exists>v\<in>set sel. c = Some v)"
  by (auto simp: isin_def split: option.splits)

lemma between_iff:
  "between c lo hi \<longleftrightarrow> (\<exists>x. c = Some (Num x) \<and> of_int lo \<le> x \<and> x \<le> of_int hi)"
  by (auto simp: between_def split: option.splits val.splits)

text \<open>
  Claim C1. On every table that has the three filtered columns, the score column being
  numeric, and for every criteria (gender list, integer range \<open>lo..hi\<close>, marital-status
  list), the filter returns a view of the same columns whose rows are exactly the rows
  of the table with gender among the genders, \<open>lo \<le> performance_score \<le> hi\<close> and marital
  status among the marital statuses, in the table's order. So every record of the view
  satisfies the three predicates, every record failing one is absent, and a record with
  a missing value in one of the three columns is absent.
\<close>

theorem df_f_inclusion_rule:
  assumes cols: "{''gender'', ''performance_score'', ''marital_status''} \<subseteq> set (columns df)"
    and num: "\<forall>r\<in>set (rows df). \<not> is_str_cell (r ''performance_score'')"
  shows "\<exists>view. df_f df genders (lo, hi) marital_statuses = Inr view \<and>
           columns view = columns df \<and>
           rows view =
             filter (\<lambda>r. (\<exists>g\<in>set genders. r ''gender'' = Some g) \<and>
                          (\<exists>x. r ''performance_score'' = Some (Num x) \<and> of_int lo \<le> x \<and> x \<le> of_int hi) \<and>
                          (\<exists>m\<in>set marital_statuses. r ''marital_status'' = Some m))
                    (rows df) \<and>
           (\<forall>r\<in>set (rows view).
              (\<exists>g\<in>set genders. r ''gender'' = Some g) \<and>
              (\<exists>x. r ''performance_score'' = Some (Num x) \<and> of_int lo \<le> x \<and> x \<le> of_int hi) \<and>
              (\<exists>m\<in>set marital_statuses. r ''marital_status'' = Some m)) \<and>
           (\<forall>r\<in>set (rows df).
              \<not> ((\<exists>g\<in>set genders. r ''gender'' = Some g) \<and>
                 (\<exists>x. r ''performance_score'' = Some (Num x) \<and> of_int lo \<le> x \<and> x \<le> of_int hi) \<and>
                 (\<exists>m\<in>set marital_statuses. r ''marital_status'' = Some m))
              \<longrightarrow> r \<notin> set (rows view)) \<and>
           (\<forall>r\<in>set (rows df).
              r ''gender'' = None \<or> r ''performance_score'' = None \<or> r ''marital_status'' = None
              \<longrightarrow> r \<notin> set (rows view))"
proof -
  let ?view = "df\<lparr>rows := filter (keep genders (lo, hi) marital_statuses) (rows df)\<rparr>"
  have k: "keep genders (lo, hi) marital_statuses =
           (\<lambda>r. (\<exists>g\<in>set genders. r ''gender'' = Some g) \<and>
                (\<exists>x. r ''performance_score'' = Some (Num x) \<and> of_int lo \<le> x \<and> x \<le> of_int hi) \<and>
                (\<exists>m\<in>set marital_statuses. r ''marital_status'' = Some m))"
    by (intro ext) (simp add: keep_def isin_iff between_iff)
  have "df_f df genders (lo, hi) marital_statuses = Inr ?view"
    using cols num by (simp add: df_f_Inr list_ex_iff)
  moreover have "columns ?view = columns df" by simp
  moreover have r: "rows ?view =
             filter (\<lambda>r. (\<exists>g\<in>set genders. r ''gender'' = Some g) \<and>
                          (\<exists>x. r ''performance_score'' = Some (Num x) \<and> of_int lo \<le> x \<and> x \<le> of_int hi) \<and>
                          (\<exists>m\<in>set marital_statuses. r ''marital_status'' = Some m))
                    (rows df)"
    by (simp add: k)
  moreover have "\<forall>r\<in>set (rows ?view).
              (\<exists>g\<in>set genders. r ''gender'' = Some g) \<and>
              (\<exists>x. r ''performance_score'' = Some (Num x) \<and> of_int lo \<le> x \<and> x \<le> of_int hi) \<and>
              (\<exists>m\<in>set marital_statuses. r ''marital_status'' = Some m)"
    unfolding r by simp
  moreover have "\<forall>r\<in>set (rows df).
              \<not> ((\<exists>g\<in>set genders. r ''gender'' = Some g) \<and>
                 (\<exists>x. r ''performance_score'' = Some (Num x) \<and> of_int lo \<le> x \<and> x \<le> of_int hi) \<and>
                 (\<exists>m\<in>set marital_statuses. r ''marital_status'' = Some m))
              \<longrightarrow> r \<notin> set (rows ?view)"
    unfolding r by simp
  moreover have "\<forall>r\<in>set (rows df).
              r ''gender'' = None \<or> r ''performance_score'' = None \<or> r ''marital_status'' = None
              \<longrightarrow> r \<notin> set (rows ?view)"
    unfolding r by auto
  ultimately show ?thesis by blast
qed

lemma loaded_gender_str:
  "load_data P raw = Inr df \<Longrightarrow> r \<in> set (rows df) \<Longrightarrow> \<exists>s. r ''gender'' = Some (Str s)"
  by (auto simp: load_data_Inr load_row_gender clean_str_def)

lemma loaded_department_str:
  "load_data P raw = Inr df \<Longrightarrow> r \<in> set (rows df) \<Longrightarrow> \<exists>s. r ''department'' = Some (Str s)"
  by (auto simp: load_data_Inr load_row_department clean_str_def)

lemma loaded_numeric:
  "load_data P raw = Inr df \<Longrightarrow> r \<in> set (rows df) \<Longrightarrow> c \<in> set numeric_cols \<Longrightarrow>
     \<not> is_str_cell (r c)"
  by (auto simp: load_data_Inr load_row_numeric to_numeric_def split: option.splits val.splits)

lemma loaded_gender_options:
  assumes "load_data P raw = Inr df"
  shows "\<exists>opts. gender_options df = Inr opts"
proof -
  have "''gender'' \<in> set (columns df)"
    using assms by (auto simp: load_data_Inr loader_cols_def)
  moreover have "\<forall>r\<in>set (rows df). \<forall>v. r ''gender'' = Some v \<longrightarrow> is_str v"
    using loaded_gender_str [OF assms] by fastforce
  ultimately show ?thesis
    unfolding gender_options_def by (rule options_strings)
qed

lemma clean_str_missing: "clean_str P None = Some (Str ''nan'')"
  by (simp add: clean_str_def astype_str_def strip_nan)

text \<open>
  Claim C10. After the load the \<open>gender\<close> and \<open>department\<close> columns hold no missing
  value: a value missing in the file is the string \<^verbatim>\<open>"nan"\<close>. The gender options
  are built without error and offer \<^verbatim>\<open>"nan"\<close> when a gender was missing, and a row
  whose gender was missing is in the filtered view exactly when \<^verbatim>\<open>"nan"\<close> is
  selected and the row passes the score and marital-status tests.
\<close>

theorem load_data_missing_becomes_nan:
  assumes ld: "load_data P raw = Inr df"
  shows "(\<forall>r\<in>set (rows df). r ''gender'' \<noteq> None \<and> r ''department'' \<noteq> None) \<and>
         (\<forall>i<length (rows raw).
            ((rows raw ! i) ''gender'' = None \<longrightarrow> (rows df ! i) ''gender'' = Some (Str ''nan'')) \<and>
            ((rows raw ! i) ''department'' = None \<longrightarrow> (rows df ! i) ''department'' = Some (Str ''nan''))) \<and>
         (\<exists>opts. gender_options df = Inr opts \<and>
            ((\<exists>r\<in>set (rows raw). r ''gender'' = None) \<longrightarrow> Str ''nan'' \<in> set opts)) \<and>
         (\<forall>i<length (rows raw). \<forall>gsel rng msel view.
            (rows raw ! i) ''gender'' = None \<and> df_f df gsel rng msel = Inr view \<longrightarrow>
            (rows df ! i \<in> set (rows view)) =
            (Str ''nan'' \<in> set gsel \<and>
             between ((rows df ! i) ''performance_score'') (fst rng) (snd rng) \<and>
             isin ((rows df ! i) ''marital_status'') msel))"
proof -
  have rs: "rows df = map (load_row P) (rows raw)" using ld by (rule load_data_rows)
  have nan: "(rows df ! i) ''gender'' = Some (Str ''nan'')"
    if "i < length (rows raw)" "(rows raw ! i) ''gender'' = None" for i
    using that by (simp add: rs load_row_gender clean_str_missing)
  have a: "\<forall>r\<in>set (rows df). r ''gender'' \<noteq> None \<and> r ''department'' \<noteq> None"
    using loaded_gender_str [OF ld] loaded_department_str [OF ld] by fastforce
  have b: "\<forall>i<length (rows raw).
            ((rows raw ! i) ''gender'' = None \<longrightarrow> (rows df ! i) ''gender'' = Some (Str ''nan'')) \<and>
            ((rows raw ! i) ''department'' = None \<longrightarrow> (rows df ! i) ''department'' = Some (Str ''nan''))"
    by (simp add: rs load_row_gender load_row_department clean_str_missing)
  obtain opts where o: "gender_options df = Inr opts"
    using loaded_gender_options [OF ld] by blast
  have "Str ''nan'' \<in> set opts" if "\<exists>r\<in>set (rows raw). r ''gender'' = None"
  proof -
    from that obtain r where r: "r \<in> set (rows raw)" "r ''gender'' = None" by blast
    then have "load_row P r \<in> set (rows df)" "load_row P r ''gender'' = Some (Str ''nan'')"
      by (simp_all add: rs load_row_gender clean_str_missing)
    then show ?thesis
      using options_Inr(2) [OF o [unfolded gender_options_def]] by blast
  qed
  then have c: "\<exists>opts. gender_options df = Inr opts \<and>
            ((\<exists>r\<in>set (rows raw). r ''gender'' = None) \<longrightarrow> Str ''nan'' \<in> set opts)"
    using o by blast
  have d: "(rows df ! i \<in> set (rows view)) =
            (Str ''nan'' \<in> set gsel \<and>
             between ((rows df ! i) ''performance_score'') (fst rng) (snd rng) \<and>
             isin ((rows df ! i) ''marital_status'') msel)"
    if i: "i < length (rows raw)" and g: "(rows raw ! i) ''gender'' = None"
      and v: "df_f df gsel rng msel = Inr view" for i gsel rng msel view
  proof -
    have mem: "rows df ! i \<in> set (rows df)" using i by (simp add: rs)
    have "rows view = filter (keep gsel rng msel) (rows df)"
      using v by (simp add: df_f_Inr)
    then have "(rows df ! i \<in> set (rows view)) = keep gsel rng msel (rows df ! i)"
      using mem by simp
    then show ?thesis
      by (simp add: keep_def nan [OF i g] isin_def)
  qed
  show ?thesis using a b c d by blast
qed

lemma load_ex_raw: "load_data ex_pandas ex_raw = Inr ex_loaded"
  using ex_raw_loader_cols by (simp add: load_data_Inr ex_loaded_def)

lemmas ex_eval =
  ex_loaded_def ex_raw_def employee_cols_def mk_row_def load_row_def clean_str_def
  astype_str_def strip_def is_space_def to_numeric_def numeric_cols_def ex_pandas_def

lemma ex_loaded_filterable:
  "{''gender'', ''performance_score'', ''marital_status''} \<subseteq> set (columns ex_loaded)"
  "\<forall>r\<in>set (rows ex_loaded). \<not> is_str_cell (r ''performance_score'')"
  by (simp_all add: ex_eval)

theorem df_f_inclusion_rule_witness:
  "\<exists>view. df_f ex_loaded [Str ''M''] (2, 4) [Str ''Single''] = Inr view \<and>
          rows view = [rows ex_loaded ! 0] \<and>
          (rows ex_loaded ! 0) ''gender'' = Some (Str ''M'')"
proof -
  from df_f_inclusion_rule [OF ex_loaded_filterable, of "[Str ''M'']" 2 4 "[Str ''Single'']"]
  obtain view where v: "df_f ex_loaded [Str ''M''] (2, 4) [Str ''Single''] = Inr view"
    and r: "rows view =
             filter (\<lambda>r. (\<exists>g\<in>set [Str ''M'']. r ''gender'' = Some g) \<and>
                          (\<exists>x. r ''performance_score'' = Some (Num x) \<and> of_int 2 \<le> x \<and> x \<le> of_int 4) \<and>
                          (\<exists>m\<in>set [Str ''Single'']. r ''marital_status'' = Some m))
                    (rows ex_loaded)"
    by blast
  have "rows view = [rows ex_loaded ! 0]"
    unfolding r by (simp add: ex_eval)
  moreover have "(rows ex_loaded ! 0) ''gender'' = Some (Str ''M'')"
    by (simp add: ex_eval)
  ultimately show ?thesis using v by blast
qed

theorem load_data_missing_becomes_nan_witness:
  "(rows ex_raw ! 2) ''gender'' = None \<and>
   (rows ex_loaded ! 2) ''gender'' = Some (Str ''nan'') \<and>
   (\<exists>opts. gender_options ex_loaded = Inr opts \<and> Str ''nan'' \<in> set opts) \<and>
   (\<exists>view. df_f ex_loaded [Str ''nan''] (2, 4) [Str ''Single''] = Inr view \<and>
       rows ex_loaded ! 2 \<in> set (rows view))"
proof -
  note t = load_data_missing_becomes_nan [OF load_ex_raw]
  have i: "2 < length (rows ex_raw)" and g: "(rows ex_raw ! 2) ''gender'' = None"
    by (simp_all add: ex_raw_def mk_row_def)
  have m: "\<exists>r\<in>set (rows ex_raw). r ''gender'' = None"
    using i g nth_mem by blast
  have a: "(rows ex_loaded ! 2) ''gender'' = Some (Str ''nan'')"
    using t [THEN conjunct2, THEN conjunct1, rule_format, OF i] g by blast
  have b: "\<exists>opts. gender_options ex_loaded = Inr opts \<and> Str ''nan'' \<in> set opts"
    using t [THEN conjunct2, THEN conjunct2, THEN conjunct1] m by blast
  obtain view where v: "df_f ex_loaded [Str ''nan''] (2, 4) [Str ''Single''] = Inr view"
    using ex_loaded_filterable by (auto simp: df_f_Inr list_ex_iff)
  have "(rows ex_loaded ! 2 \<in> set (rows view)) =
            (Str ''nan'' \<in> set [Str ''nan''] \<and>
             between ((rows ex_loaded ! 2) ''performance_score'') (fst (2::int, 4::int)) (snd (2::int, 4::int)) \<and>
             isin ((rows ex_loaded ! 2) ''marital_status'') [Str ''Single''])"
    by (rule t [THEN conjunct2, THEN conjunct2, THEN conjunct2, rule_format, OF i conjI [OF g v]])
  moreover have "between ((rows ex_loaded ! 2) ''performance_score'') 2 4"
    by (simp add: between_def ex_eval)
  moreover have "isin ((rows ex_loaded ! 2) ''marital_status'') [Str ''Single'']"
    by (simp add: isin_def ex_eval)
  ultimately have "rows ex_loaded ! 2 \<in> set (rows view)" by simp
  then show ?thesis using g a b v by blast
qed

lemma set_numbers: "set (numbers xs) = {x. Some (Num x) \<in> set xs}"
  by (induction xs rule: numbers.induct) auto

lemma set_numbers_map: "set (numbers (map f rs)) = {x. \<exists>r\<in>set rs. f r = Some (Num x)}"
  by (force simp: set_numbers image_iff)

lemma py_int_of_int: "x \<in> \<int> \<Longrightarrow> of_int (py_int x) = x"
  by (auto simp: py_int_def elim: Ints_cases)

lemma score_bounds_Inr:
  assumes "score_bounds df = Inr (lo, hi)"
  shows "''performance_score'' \<in> set (columns df)"
    and "\<not> list_ex (\<lambda>r. is_str_cell (r ''performance_score'')) (rows df)"
    and "numbers (map (\<lambda>r. r ''performance_score'') (rows df)) \<noteq> []"
    and "lo = py_int (Min (set (numbers (map (\<lambda>r. r ''performance_score'') (rows df)))))"
    and "hi = py_int (Max (set (numbers (map (\<lambda>r. r ''performance_score'') (rows df)))))"
  using assms
  by (auto simp: score_bounds_def getitem_def list_ex_iff split: if_splits)

lemma score_bounds_bracket:
  assumes b: "score_bounds df = Inr (lo, hi)"
    and ints: "\<forall>r\<in>set (rows df). \<forall>x. r ''performance_score'' = Some (Num x) \<longrightarrow> x \<in> \<int>"
    and r: "r \<in> set (rows df)" and x: "r ''performance_score'' = Some (Num x)"
  shows "of_int lo \<le> x \<and> x \<le> of_int hi"
proof -
  let ?ns = "numbers (map (\<lambda>r. r ''performance_score'') (rows df))"
  have ne: "set ?ns \<noteq> {}" using score_bounds_Inr(3) [OF b] by simp
  have fin: "finite (set ?ns)" by simp
  have mem: "x \<in> set ?ns" using r x by (auto simp: set_numbers_map)
  have all: "\<forall>y\<in>set ?ns. y \<in> \<int>" using ints by (auto simp: set_numbers_map)
  have "Min (set ?ns) \<in> set ?ns" using fin ne by (rule Min_in)
  then have "of_int lo = Min (set ?ns)"
    using all score_bounds_Inr(4) [OF b] by (simp add: py_int_of_int)
  moreover have "Max (set ?ns) \<in> set ?ns" using fin ne by (rule Max_in)
  then have "of_int hi = Max (set ?ns)"
    using all score_bounds_Inr(5) [OF b] by (simp add: py_int_of_int)
  moreover have "Min (set ?ns) \<le> x" using fin mem by (rule Min_le)
  moreover have "x \<le> Max (set ?ns)" using fin mem by (rule Max_ge)
  ultimately show ?thesis by simp
qed

text \<open>
  Claim C2, as amended. On a table for which the three controls are built (the score
  column holds at least one number) and whose scores are all integers, the first pass
  of the script (every gender and marital status selected, the range set to the
  truncated minimum and maximum) yields the table without exactly the rows that have a
  missing gender, score or marital status. The counterexample further down shows that
  the integrality of the scores is needed: with the scores 3 and 4.5 the range is 3 to 4,
  and the record with 4.5, which has no missing value, is not in the view.
\<close>

theorem filtered_view_defaults:
  assumes g: "gender_options df = Inr gopts"
    and b: "score_bounds df = Inr (lo, hi)"
    and m: "marital_options df = Inr mopts"
    and ints: "\<forall>r\<in>set (rows df). \<forall>x. r ''performance_score'' = Some (Num x) \<longrightarrow> x \<in> \<int>"
  shows "filtered_view defaults df =
           Inr (df\<lparr>rows := filter (\<lambda>r. r ''gender'' \<noteq> None \<and> r ''performance_score'' \<noteq> None \<and>
                                      r ''marital_status'' \<noteq> None) (rows df)\<rparr>)"
proof -
  note go = options_Inr [OF g [unfolded gender_options_def]]
  note mo = options_Inr [OF m [unfolded marital_options_def]]
  note sb = score_bounds_Inr [OF b]
  have k: "keep gopts (lo, hi) mopts r =
           (r ''gender'' \<noteq> None \<and> r ''performance_score'' \<noteq> None \<and> r ''marital_status'' \<noteq> None)"
    if r: "r \<in> set (rows df)" for r
  proof -
    have "isin (r ''gender'') gopts = (r ''gender'' \<noteq> None)"
      using r go(2) by (auto simp: isin_def split: option.splits)
    moreover have "isin (r ''marital_status'') mopts = (r ''marital_status'' \<noteq> None)"
      using r mo(2) by (auto simp: isin_def split: option.splits)
    moreover have "between (r ''performance_score'') lo hi = (r ''performance_score'' \<noteq> None)"
    proof (cases "r ''performance_score''")
      case None
      then show ?thesis by (simp add: between_def)
    next
      case (Some v)
      have "\<not> is_str_cell (r ''performance_score'')"
        using sb(2) r by (auto simp: list_ex_iff)
      then obtain x where x: "r ''performance_score'' = Some (Num x)"
        using Some by (cases v) auto
      then show ?thesis
        using score_bounds_bracket [OF b ints r x] by (simp add: between_def)
    qed
    ultimately show ?thesis by (simp add: keep_def)
  qed
  have "filter (keep gopts (lo, hi) mopts) (rows df) =
        filter (\<lambda>r. r ''gender'' \<noteq> None \<and> r ''performance_score'' \<noteq> None \<and>
                     r ''marital_status'' \<noteq> None) (rows df)"
    by (rule filter_cong [OF refl]) (rule k)
  then show ?thesis
    using g b m go(1) mo(1) sb(1) sb(2)
    by (simp add: filtered_view_def defaults_def df_f_def)
qed

lemmas ctl_eval =
  gender_options_def marital_options_def options_def getitem_def unique_def py_sorted_def
  score_bounds_def less_eq_val_def less_val_def

lemma py_int_half: "py_int (9 / 2) = 4"
  by (simp add: py_int_def floor_eq_iff)

lemma ex_loaded_gender_options:
  "gender_options ex_loaded = Inr [Str ''F'', Str ''M'', Str ''nan'']"
  by (simp add: ctl_eval ex_eval)

lemma ex_loaded_marital_options:
  "marital_options ex_loaded = Inr [Str ''Married'', Str ''Single'']"
  by (simp add: ctl_eval ex_eval)

lemma ex_loaded_score_bounds: "score_bounds ex_loaded = Inr (2, 4)"
  by (simp add: ctl_eval py_int_def ex_eval)

lemma ex_loaded_ints:
  "\<forall>r\<in>set (rows ex_loaded). \<forall>x. r ''performance_score'' = Some (Num x) \<longrightarrow> x \<in> \<int>"
  by (auto simp: ex_eval)

theorem filtered_view_defaults_witness:
  "filtered_view defaults ex_loaded = Inr ex_loaded"
proof -
  have "filter (\<lambda>r. r ''gender'' \<noteq> None \<and> r ''performance_score'' \<noteq> None \<and>
                     r ''marital_status'' \<noteq> None) (rows ex_loaded) = rows ex_loaded"
    by (simp add: ex_eval)
  then show ?thesis
    using filtered_view_defaults [OF ex_loaded_gender_options ex_loaded_score_bounds
      ex_loaded_marital_options ex_loaded_ints]
    by simp
qed

lemma load_row_clean:
  assumes "r ''department'' = Some (Str d)" "strip d = d" "r ''gender'' = Some (Str g)" "strip g = g"
    and "\<forall>c\<in>set numeric_cols. \<not> is_str_cell (r c)"
  shows "load_row P r = r"
proof
  fix c
  have "to_numeric P (r c) = r c" if "c \<in> set numeric_cols"
    using assms(5) that by (auto simp: to_numeric_def split: option.splits val.splits)
  then show "load_row P r c = r c"
    using assms(1-4) by (auto simp: load_row_def clean_str_def astype_str_def)
qed

lemma load_clean:
  assumes "set loader_cols \<subseteq> set (columns df)" and "\<forall>r\<in>set (rows df). load_row P r = r"
  shows "load_data P df = Inr df"
proof -
  have "map (load_row P) (rows df) = rows df"
    using assms(2) by (simp add: map_idI)
  then show ?thesis using assms(1) by (simp add: load_data_Inr)
qed

lemma py_int_numeral: "py_int (numeral n) = numeral n"
  by (simp add: py_int_def)

lemma load_ex_half: "load_data ex_pandas ex_half = Inr ex_half"
proof (rule load_clean)
  show "set loader_cols \<subseteq> set (columns ex_half)"
    by (simp add: loader_cols_def numeric_cols_def ex_half_def employee_cols_def)
  have "load_row ex_pandas (rows ex_half ! 0) = rows ex_half ! 0"
    by (rule load_row_clean [where d = "''IT''" and g = "''M''"])
       (simp_all add: ex_half_def mk_row_def strip_def is_space_def numeric_cols_def)
  moreover have "load_row ex_pandas (rows ex_half ! 1) = rows ex_half ! 1"
    by (rule load_row_clean [where d = "''IT''" and g = "''F''"])
       (simp_all add: ex_half_def mk_row_def strip_def is_space_def numeric_cols_def)
  ultimately show "\<forall>r\<in>set (rows ex_half). load_row ex_pandas r = r"
    by (simp add: ex_half_def)
qed

theorem filtered_view_defaults_counterexample:
  "load_data ex_pandas ex_half = Inr ex_half \<and>
   missing ex_half = [] \<and>
   score_bounds ex_half = Inr (3, 4) \<and>
   filtered_view defaults ex_half = Inr (ex_half\<lparr>rows := [rows ex_half ! 0]\<rparr>) \<and>
   length (rows ex_half) = 2 \<and>
   (rows ex_half ! 0) ''performance_score'' = Some (Num 3) \<and>
   (rows ex_half ! 1) ''gender'' = Some (Str ''F'') \<and>
   (rows ex_half ! 1) ''performance_score'' = Some (Num (9 / 2)) \<and>
   (rows ex_half ! 1) ''marital_status'' = Some (Str ''Married'')"
proof -
  have "missing ex_half = []"
    by (simp add: missing_def required_cols_def ex_half_def employee_cols_def)
  moreover have "score_bounds ex_half = Inr (3, 4)"
    by (simp add: ctl_eval ex_half_def employee_cols_def mk_row_def py_int_half py_int_numeral)
  moreover have "filtered_view defaults ex_half = Inr (ex_half\<lparr>rows := [rows ex_half ! 0]\<rparr>)"
    by (simp add: filtered_view_def defaults_def df_f_def keep_def isin_def between_def
          ctl_eval ex_half_def employee_cols_def mk_row_def py_int_half py_int_numeral)
  moreover have "length (rows ex_half) = 2"
    "(rows ex_half ! 0) ''performance_score'' = Some (Num 3)"
    "(rows ex_half ! 1) ''gender'' = Some (Str ''F'')"
    "(rows ex_half ! 1) ''performance_score'' = Some (Num (9 / 2))"
    "(rows ex_half ! 1) ''marital_status'' = Some (Str ''Married'')"
    by (simp_all add: ex_half_def mk_row_def)
  ultimately show ?thesis using load_ex_half by simp
qed

section \<open>Properties of float64 rounding\<close>

lemma rne_bound: "\<bar>of_int (rne q) - q\<bar> \<le> 1 / 2"
proof -
  have "of_int \<lfloor>q\<rfloor> \<le> q" "q < of_int \<lfloor>q\<rfloor> + 1" by linarith+
  then show ?thesis
    unfolding rne_def by (auto simp: abs_le_iff; linarith?)
qed

lemma rne_of_int [simp]: "rne (of_int k) = k"
  by (simp add: rne_def)

lemma rne_mono: "q \<le> q' \<Longrightarrow> rne q \<le> rne q'"
proof -
  assume le: "q \<le> q'"
  have f: "\<lfloor>q\<rfloor> \<le> \<lfloor>q'\<rfloor>" using le by (rule floor_mono)
  show ?thesis
  proof (cases "\<lfloor>q\<rfloor> = \<lfloor>q'\<rfloor>")
    case True
    then show ?thesis using le by (auto simp: rne_def)
  next
    case False
    then have "\<lfloor>q\<rfloor> + 1 \<le> \<lfloor>q'\<rfloor>" using f by simp
    moreover have "rne q \<le> \<lfloor>q\<rfloor> + 1" by (auto simp: rne_def)
    moreover have "\<lfloor>q'\<rfloor> \<le> rne q'" by (auto simp: rne_def)
    ultimately show ?thesis by linarith
  qed
qed

lemma rne_unique:
  assumes "\<bar>of_int m - q\<bar> < 1 / 2"
  shows "rne q = m"
proof -
  let ?f = "\<lfloor>q\<rfloor>"
  have fl: "of_int ?f \<le> q" "q < of_int ?f + 1" by linarith+
  have m: "q - 1 / 2 < of_int m" "of_int m < q + 1 / 2"
    using assms by linarith+
  consider (lo) "q - of_int ?f < 1 / 2" | (hi) "1 / 2 < q - of_int ?f" | (tie) "q - of_int ?f = 1 / 2"
    by linarith
  then show ?thesis
  proof cases
    case lo
    have "?f - 1 < m" "m < ?f + 1" using lo fl m by linarith+
    then show ?thesis using lo by (simp add: rne_def)
  next
    case hi
    have "?f < m" "m < ?f + 2" using hi fl m by linarith+
    then show ?thesis using hi by (simp add: rne_def)
  next
    case tie
    have "?f < m" "m < ?f + 1" using tie fl m by linarith+
    then show ?thesis by simp
  qed
qed

lemma expo_bounds:
  assumes "x \<noteq> 0"
  shows "2 powi (expo x) \<le> \<bar>x\<bar>" and "\<bar>x\<bar> < 2 powi (expo x + 1)"
proof -
  have "2 powi (expo x) \<le> \<bar>x\<bar> \<and> \<bar>x\<bar> < 2 powi (expo x + 1)"
  proof (cases "1 \<le> \<bar>x\<bar>")
    case True
    let ?n = "\<lfloor>\<bar>x\<bar>\<rfloor>"
    have n: "0 < ?n" using True by simp
    note b = bitlen_bounds [OF n]
    have b1: "1 \<le> bitlen ?n" using n by (auto simp: bitlen_alt_def)
    have e: "expo x = bitlen ?n - 1" using True by (simp add: expo_def)
    have "(2::rat) powi (bitlen ?n - 1) = of_int (2 ^ nat (bitlen ?n - 1))"
      using b1 by (simp add: power_int_nonneg_exp)
    also have "\<dots> \<le> of_int ?n" using b by (simp only: of_int_le_iff)
    also have "\<dots> \<le> \<bar>x\<bar>" by simp
    finally have lo: "2 powi (expo x) \<le> \<bar>x\<bar>" by (simp add: e)
    have "\<bar>x\<bar> < of_int (?n + 1)" by linarith
    also have "\<dots> \<le> of_int (2 ^ nat (bitlen ?n))"
      using b by (simp only: of_int_le_iff) simp
    also have "\<dots> = (2::rat) powi (bitlen ?n)"
      using b1 by (simp add: power_int_nonneg_exp)
    finally have "\<bar>x\<bar> < 2 powi (expo x + 1)" by (simp add: e)
    with lo show ?thesis by simp
  next
    case False
    let ?y = "1 / \<bar>x\<bar>"
    let ?m = "\<lceil>?y\<rceil> - 1"
    have x: "0 < \<bar>x\<bar>" "\<bar>x\<bar> < 1" using assms False by simp_all
    then have y: "1 < ?y" by simp
    then have "1 < \<lceil>?y\<rceil>" by (simp add: less_ceiling_iff)
    then have m: "0 < ?m" by simp
    note b = bitlen_bounds [OF m]
    have b1: "1 \<le> bitlen ?m" using m by (auto simp: bitlen_alt_def)
    have e: "expo x = - bitlen ?m" using False by (simp add: expo_def)
    have "?y \<le> of_int (?m + 1)" by simp
    also have "\<dots> \<le> of_int (2 ^ nat (bitlen ?m))"
      using b by (simp only: of_int_le_iff) simp
    also have "\<dots> = (2::rat) powi (bitlen ?m)"
      using b1 by (simp add: power_int_nonneg_exp)
    finally have "1 / \<bar>x\<bar> \<le> 2 powi (bitlen ?m)" .
    then have "1 \<le> 2 powi (bitlen ?m) * \<bar>x\<bar>"
      using x(1) by (simp add: divide_le_eq)
    then have lo: "2 powi (- bitlen ?m) \<le> \<bar>x\<bar>"
      by (simp add: power_int_minus_divide divide_le_eq mult.commute)
    have "(2::rat) powi (bitlen ?m - 1) = of_int (2 ^ nat (bitlen ?m - 1))"
      using b1 by (simp add: power_int_nonneg_exp)
    also have "\<dots> \<le> of_int ?m" using b by (simp only: of_int_le_iff)
    also have "\<dots> < ?y" by linarith
    finally have "2 powi (bitlen ?m - 1) * \<bar>x\<bar> < 1"
      using x(1) by (simp add: less_divide_eq)
    moreover have "(0::rat) < 2 powi (bitlen ?m - 1)"
      by (simp add: zero_less_power_int)
    ultimately have "\<bar>x\<bar> < 1 / 2 powi (bitlen ?m - 1)"
      by (simp add: less_divide_eq mult.commute)
    then have "\<bar>x\<bar> < 2 powi (- (bitlen ?m - 1))"
      by (simp only: power_int_minus_divide)
    then have "\<bar>x\<bar> < 2 powi (expo x + 1)" by (simp add: e)
    with lo show ?thesis by (simp add: e)
  qed
  then show "2 powi (expo x) \<le> \<bar>x\<bar>" and "\<bar>x\<bar> < 2 powi (expo x + 1)" by simp_all
qed

lemma powi2_less_imp:
  assumes "(2::rat) powi a < 2 powi b"
  shows "a < b"
proof (rule ccontr)
  assume "\<not> a < b"
  then have "b \<le> a" by simp
  then have "(2::rat) powi b \<le> 2 powi a" by (rule power_int_increasing) simp
  with assms show False by simp
qed

lemma expo_unique:
  assumes "2 powi e \<le> \<bar>x\<bar>" and "\<bar>x\<bar> < 2 powi (e + 1)"
  shows "expo x = e"
proof -
  have "(0::rat) < 2 powi e" by (simp add: zero_less_power_int)
  then have "0 < \<bar>x\<bar>" using assms(1) by linarith
  then have x: "x \<noteq> 0" by auto
  note b = expo_bounds [OF x]
  have "(2::rat) powi e < 2 powi (expo x + 1)" using assms(1) b(2) by linarith
  then have "e < expo x + 1" by (rule powi2_less_imp)
  moreover have "(2::rat) powi (expo x) < 2 powi (e + 1)" using assms(2) b(1) by linarith
  then have "expo x < e + 1" by (rule powi2_less_imp)
  ultimately show ?thesis by simp
qed

lemma fl64_eqI:
  assumes "2 powi e \<le> \<bar>x\<bar>" and "\<bar>x\<bar> < 2 powi (e + 1)"
    and "\<bar>of_int m - x / 2 powi (e - 52)\<bar> < 1 / 2"
    and "y = of_int m * 2 powi (e - 52)"
  shows "fl64 x = y"
proof -
  have "(0::rat) < 2 powi e" by simp
  then have "0 < \<bar>x\<bar>" using assms(1) by linarith
  then have x: "x \<noteq> 0" by auto
  have e: "expo x = e" using assms(1,2) by (rule expo_unique)
  have "rne (x / 2 powi (e - 52)) = m" using assms(3) by (rule rne_unique)
  then show ?thesis using x by (simp add: fl64_def e assms(4))
qed

lemma fl64_0 [simp]: "fl64 0 = 0"
  by (simp add: fl64_def)

lemma fl64_exact:
  assumes "\<bar>m\<bar> < 2 ^ 53"
  shows "fl64 (of_int m * 2 powi j) = of_int m * 2 powi j"
proof (cases "m = 0")
  case True
  then show ?thesis by simp
next
  case False
  let ?x = "of_int m * 2 powi j :: rat"
  let ?e = "expo ?x"
  have x: "?x \<noteq> 0" using False by simp
  note b = expo_bounds [OF x]
  have "\<bar>?x\<bar> = of_int \<bar>m\<bar> * 2 powi j" by (simp add: abs_mult)
  also have "\<dots> < of_int (2 ^ 53) * 2 powi j"
    using assms by (intro mult_strict_right_mono) (simp_all only: of_int_less_iff zero_less_power_int zero_less_numeral)
  also have "\<dots> = 2 powi (53 + j)" by (simp add: power_int_add)
  finally have "(2::rat) powi ?e < 2 powi (53 + j)" using b(1) by linarith
  then have "?e < 53 + j" by (rule powi2_less_imp)
  then have k: "0 \<le> j - (?e - 52)" by simp
  have "?x / 2 powi (?e - 52) = of_int m * 2 powi (j - (?e - 52))"
    by (simp add: power_int_diff)
  also have "\<dots> = of_int (m * 2 ^ nat (j - (?e - 52)))"
    using k by (simp add: power_int_nonneg_exp)
  finally have "rne (?x / 2 powi (?e - 52)) = m * 2 ^ nat (j - (?e - 52))"
    by (simp only: rne_of_int)
  then have "fl64 ?x = of_int (m * 2 ^ nat (j - (?e - 52))) * 2 powi (?e - 52)"
    using x by (simp only: fl64_def if_False)
  also have "\<dots> = of_int m * (2 powi (j - (?e - 52)) * 2 powi (?e - 52))"
    using k by (simp add: power_int_nonneg_exp)
  also have "\<dots> = ?x" by (simp flip: power_int_add)
  finally show ?thesis .
qed

lemma fl64_of_int: "\<bar>m\<bar> < 2 ^ 53 \<Longrightarrow> fl64 (of_int m) = of_int m"
  using fl64_exact [of m 0] by simp

lemma fl64_numeral [simp]: "numeral n < (2::int) ^ 53 \<Longrightarrow> fl64 (numeral n) = numeral n"
  using fl64_of_int [of "numeral n"] by simp

lemma fl64_error:
  "\<bar>fl64 x - x\<bar> \<le> \<bar>x\<bar> / 2 ^ 53"
proof (cases "x = 0")
  case True
  then show ?thesis by simp
next
  case False
  let ?u = "2 powi (expo x - 52) :: rat"
  have u: "0 < ?u" by simp
  have "fl64 x - x = (of_int (rne (x / ?u)) - x / ?u) * ?u"
    using False by (simp add: fl64_def left_diff_distrib)
  then have "\<bar>fl64 x - x\<bar> = \<bar>of_int (rne (x / ?u)) - x / ?u\<bar> * ?u"
    using u by (simp add: abs_mult)
  also have "\<dots> \<le> 1 / 2 * ?u"
    using u rne_bound [of "x / ?u"] by (intro mult_right_mono) simp_all
  also have "\<dots> = 2 powi (expo x) / 2 ^ 53"
    by (simp add: power_int_diff)
  also have "\<dots> \<le> \<bar>x\<bar> / 2 ^ 53"
    using expo_bounds(1) [OF False] by (simp add: divide_right_mono)
  finally show ?thesis .
qed

lemma fl64_range:
  assumes "0 < x"
  shows "2 powi (expo x) \<le> fl64 x" and "fl64 x \<le> 2 powi (expo x + 1)"
proof -
  let ?u = "2 powi (expo x - 52) :: rat"
  have x: "x \<noteq> 0" using assms by simp
  have u: "0 < ?u" by simp
  note b = expo_bounds [OF x]
  have ax: "\<bar>x\<bar> = x" using assms by simp
  have lo: "of_int (2 ^ 52) \<le> x / ?u"
    using b(1) u by (simp add: ax le_divide_eq power_int_diff)
  have hi: "x / ?u \<le> of_int (2 ^ 53)"
    using b(2) u by (simp add: ax divide_le_eq power_int_diff power_int_add)
  have "rne (of_int (2 ^ 52)) \<le> rne (x / ?u)" using lo by (rule rne_mono)
  then have "(of_int (2 ^ 52) :: rat) \<le> of_int (rne (x / ?u))"
    by (simp only: rne_of_int of_int_le_iff)
  then have "of_int (2 ^ 52) * ?u \<le> of_int (rne (x / ?u)) * ?u"
    using u by (intro mult_right_mono) simp_all
  then show "2 powi (expo x) \<le> fl64 x"
    using x by (simp add: fl64_def power_int_diff)
  have "rne (x / ?u) \<le> rne (of_int (2 ^ 53))" using hi by (rule rne_mono)
  then have "(of_int (rne (x / ?u)) :: rat) \<le> of_int (2 ^ 53)"
    by (simp only: rne_of_int of_int_le_iff)
  then have "of_int (rne (x / ?u)) * ?u \<le> of_int (2 ^ 53) * ?u"
    using u by (intro mult_right_mono) simp_all
  then show "fl64 x \<le> 2 powi (expo x + 1)"
    using x by (simp add: fl64_def power_int_diff power_int_add)
qed

lemma fl64_nonneg: "0 \<le> x \<Longrightarrow> 0 \<le> fl64 x"
proof (cases "x = 0")
  case True
  then show ?thesis by simp
next
  case False
  assume "0 \<le> x"
  then have "0 < x" using False by simp
  then have "2 powi (expo x) \<le> fl64 x" by (rule fl64_range)
  moreover have "(0::rat) < 2 powi (expo x)" by simp
  ultimately show ?thesis by linarith
qed

lemma fl64_mono:
  assumes "0 \<le> x" and "x \<le> y"
  shows "fl64 x \<le> fl64 y"
proof (cases "x = 0")
  case True
  then show ?thesis using assms fl64_nonneg [of y] by simp
next
  case False
  then have x: "0 < x" and y: "0 < y" using assms by simp_all
  have nz: "x \<noteq> 0" "y \<noteq> 0" using x y by simp_all
  note bx = expo_bounds [OF nz(1)] and bY = expo_bounds [OF nz(2)]
  have "(2::rat) powi (expo x) < 2 powi (expo y + 1)"
    using bx(1) bY(2) assms x y by simp
  then have le: "expo x \<le> expo y" using powi2_less_imp by fastforce
  show ?thesis
  proof (cases "expo x = expo y")
    case True
    let ?u = "2 powi (expo y - 52) :: rat"
    have u: "0 < ?u" by simp
    have "x / ?u \<le> y / ?u" using assms(2) u by (simp add: divide_right_mono)
    then have "rne (x / ?u) \<le> rne (y / ?u)" by (rule rne_mono)
    then have "(of_int (rne (x / ?u)) :: rat) * ?u \<le> of_int (rne (y / ?u)) * ?u"
      using u by (intro mult_right_mono) simp_all
    then show ?thesis using nz by (simp add: fl64_def True)
  next
    case False
    then have "expo x + 1 \<le> expo y" using le by simp
    then have "(2::rat) powi (expo x + 1) \<le> 2 powi (expo y)"
      by (rule power_int_increasing) simp
    then show ?thesis
      using fl64_range(2) [OF x] fl64_range(1) [OF y] by linarith
  qed
qed

lemma fl64_two_thirds: "fl64 (2 / 3) = 6004799503160661 / 9007199254740992"
  by (rule fl64_eqI [where e = "- 1" and m = 6004799503160661]) simp_all

lemma fl64_one_third: "fl64 (1 / 3) = 6004799503160661 / 18014398509481984"
  by (rule fl64_eqI [where e = "- 2" and m = 6004799503160661]) simp_all



section \<open>One pass of the script: validation, empty view, absent columns\<close>

lemma missing_set: "set (missing df) = set required_cols - set (columns df)"
  by (auto simp: missing_def)

lemma missing_Nil: "missing df = [] \<longleftrightarrow> set required_cols \<subseteq> set (columns df)"
  by (auto simp: missing_def filter_empty_conv)

lemma run_sections_no_error_msg:
  "\<forall>x. Inr x \<in> set ss \<longrightarrow> x \<noteq> ErrorMsg m \<Longrightarrow> ErrorMsg m \<notin> set (fst (run_sections ss))"
  by (induction ss rule: run_sections.induct) auto

lemma metric_mean_Inr: "metric_mean P view c = Inr x \<Longrightarrow> \<exists>v. x = MetricMean c v"
  by (auto simp: metric_mean_def split: sum.splits)

lemma chart_Inr: "chart mk d = Inr x \<Longrightarrow> \<exists>y. x = mk y"
  by (auto simp: chart_def split: sum.splits)

lemma conclusions_Inr:
  "conclusions P view = Inr x \<Longrightarrow> \<exists>a b c d e. x = Conclusions a b c d e"
  unfolding conclusions_def
  by (cases "perf_counts view"; cases "col_mean P view ''performance_score''";
      cases "col_mean P view ''satisfaction_level''"; cases "col_mean P view ''absences''")
     (auto split: list.splits)

lemma sections_no_error_msg: "Inr x \<in> set (sections P view) \<Longrightarrow> x \<noteq> ErrorMsg m"
  unfolding sections_def
  by (auto dest!: metric_mean_Inr [OF sym] chart_Inr [OF sym] conclusions_Inr [OF sym])

lemma present_no_error_msg: "ErrorMsg m \<notin> set (fst (present P df view))"
  using run_sections_no_error_msg [of "sections P view" m] sections_no_error_msg [of _ P view m]
  by (auto simp: present_def)

lemma after_validation_no_error_msg: "ErrorMsg m \<notin> set (fst (after_validation P U df))"
  by (auto simp: after_validation_def present_no_error_msg split: sum.splits)

text \<open>What the validation does once \<open>load_data\<close> has returned a table.\<close>

lemma validation_after_load:
  assumes ld: "load_data P raw = Inr df"
  shows "set (missing df) = set required_cols - set (columns df) \<and>
         (missing df \<noteq> [] \<longrightarrow> script P U raw = ([ErrorMsg (missing df)], Stopped)) \<and>
         (set required_cols \<subseteq> set (columns df) \<longrightarrow>
            script P U raw = after_validation P U df \<and>
            (\<forall>m. ErrorMsg m \<notin> set (fst (script P U raw))))"
proof (intro conjI impI)
  show "set (missing df) = set required_cols - set (columns df)"
    by (rule missing_set)
  show "script P U raw = ([ErrorMsg (missing df)], Stopped)" if "missing df \<noteq> []"
    using ld that by (simp add: script_def)
  assume "set required_cols \<subseteq> set (columns df)"
  then have "missing df = []" by (simp add: missing_Nil)
  then show s: "script P U raw = after_validation P U df"
    using ld by (simp add: script_def)
  show "\<forall>m. ErrorMsg m \<notin> set (fst (script P U raw))"
    unfolding s by (simp add: after_validation_no_error_msg)
qed

text \<open>
  Claim C3. When the table is loaded and valid and the filtered view has no record, the
  pass shows the count in the sidebar, then the warning, and stops by \<^verbatim>\<open>st.stop()\<close>:
  no metric, chart, table, export or conclusion is shown, and nothing is raised. A pass
  is a function of the file and of the widget values, so the next pass, with other
  values, is not affected.
\<close>

theorem script_empty_view_warns:
  assumes "load_data P raw = Inr df" and "missing df = []"
    and "filtered_view U df = Inr view" and "rows view = []"
  shows "script P U raw = ([SidebarCount 0 (length (rows df)), WarningMsg], Stopped)"
  using assms by (simp add: script_def after_validation_def present_def)

lemma load_data_Inl:
  "load_data P raw = Inl e \<longleftrightarrow>
     \<not> set loader_cols \<subseteq> set (columns raw) \<and>
     e = KeyError [hd (filter (\<lambda>c. c \<notin> set (columns raw)) loader_cols)]"
  by (auto simp: load_data_def map_col_def loader_cols_def numeric_cols_def split: sum.splits)

text \<open>
  Claim C9. When one of the six columns that \<open>load_data\<close> reads is absent from the file,
  the pass ends in the \<^verbatim>\<open>KeyError\<close> of the first of them that is absent, before the
  validation, and shows nothing. The error message of the validation is shown only
  with the list \<open>[marital_status]\<close>: only when that column is absent and the six
  columns of the loader are present.
\<close>

theorem script_schema_error_only_marital_status:
  "(\<not> set loader_cols \<subseteq> set (columns raw) \<longrightarrow>
      script P U raw =
        ([], Raised (KeyError [hd (filter (\<lambda>c. c \<notin> set (columns raw)) loader_cols)]))) \<and>
   (\<forall>m. ErrorMsg m \<in> set (fst (script P U raw)) \<longrightarrow>
      m = [''marital_status''] \<and> ''marital_status'' \<notin> set (columns raw) \<and>
      set loader_cols \<subseteq> set (columns raw) \<and>
      script P U raw = ([ErrorMsg [''marital_status'']], Stopped))"
proof (intro conjI impI allI)
  assume "\<not> set loader_cols \<subseteq> set (columns raw)"
  then have "load_data P raw =
      Inl (KeyError [hd (filter (\<lambda>c. c \<notin> set (columns raw)) loader_cols)])"
    by (simp add: load_data_Inl)
  then show "script P U raw =
        ([], Raised (KeyError [hd (filter (\<lambda>c. c \<notin> set (columns raw)) loader_cols)]))"
    by (simp add: script_def)
next
  fix m assume m: "ErrorMsg m \<in> set (fst (script P U raw))"
  then obtain df where ld: "load_data P raw = Inr df"
    by (cases "load_data P raw") (auto simp: script_def)
  then have cols: "set loader_cols \<subseteq> set (columns raw)" and c: "columns df = columns raw"
    by (simp_all add: load_data_Inr)
  have ne: "missing df \<noteq> []"
    using m ld after_validation_no_error_msg [of m P U df] by (auto simp: script_def)
  then have s: "script P U raw = ([ErrorMsg (missing df)], Stopped)"
    using ld by (simp add: script_def)
  have "missing df = [''marital_status'']"
    using cols ne unfolding c missing_def required_cols_def loader_cols_def numeric_cols_def
    by (auto split: if_splits)
  moreover from this have "''marital_status'' \<notin> set (columns raw)"
    using missing_set [of df] c by auto
  moreover have "m = missing df" using m s by simp
  ultimately show "m = [''marital_status'']" "''marital_status'' \<notin> set (columns raw)"
    "script P U raw = ([ErrorMsg [''marital_status'']], Stopped)"
    using s by simp_all
  show "set loader_cols \<subseteq> set (columns raw)" by (rule cols)
qed

lemma ex_loaded_missing: "missing ex_loaded = []"
  by (simp add: missing_def required_cols_def ex_loaded_def ex_raw_def employee_cols_def)

lemma ex_loaded_no_gender:
  "filtered_view ui_no_gender ex_loaded = Inr (ex_loaded\<lparr>rows := []\<rparr>)"
proof -
  have "filter (keep [] (2, 4) [Str ''Married'', Str ''Single'']) (rows ex_loaded) = []"
    by (simp add: filter_empty_conv keep_def isin_iff)
  then show ?thesis
    using ex_loaded_filterable
    by (simp add: filtered_view_def ui_no_gender_def defaults_def ex_loaded_gender_options
          ex_loaded_score_bounds ex_loaded_marital_options df_f_def list_ex_iff)
qed

theorem script_empty_view_warns_witness:
  "script ex_pandas ui_no_gender ex_raw = ([SidebarCount 0 3, WarningMsg], Stopped)"
proof -
  have "length (rows ex_loaded) = 3"
    by (simp add: ex_loaded_def ex_raw_def)
  then show ?thesis
    using script_empty_view_warns [OF load_ex_raw ex_loaded_missing ex_loaded_no_gender]
    by simp
qed

lemma load_no_marital:
  "load_data ex_pandas (drop_col ''marital_status'' ex_raw) =
     Inr (drop_col ''marital_status'' ex_loaded)"
  by (simp add: load_data_Inr drop_col_def ex_loaded_def loader_cols_def numeric_cols_def
        ex_raw_def employee_cols_def)

lemma missing_no_marital: "missing (drop_col ''marital_status'' ex_loaded) = [''marital_status'']"
  by (simp add: missing_def required_cols_def drop_col_def ex_loaded_def ex_raw_def
        employee_cols_def)

lemma script_no_marital:
  "script ex_pandas defaults (drop_col ''marital_status'' ex_raw) =
     ([ErrorMsg [''marital_status'']], Stopped)"
  by (simp add: script_def load_no_marital missing_no_marital)

theorem script_schema_error_only_marital_status_witness:
  "script ex_pandas defaults (drop_col ''salary'' ex_raw) = ([], Raised (KeyError [''salary''])) \<and>
   ''marital_status'' \<notin> set (columns (drop_col ''marital_status'' ex_raw)) \<and>
   set loader_cols \<subseteq> set (columns (drop_col ''marital_status'' ex_raw))"
proof -
  have n: "\<not> set loader_cols \<subseteq> set (columns (drop_col ''salary'' ex_raw))"
    by (simp add: loader_cols_def numeric_cols_def drop_col_def ex_raw_def employee_cols_def)
  have h: "hd (filter (\<lambda>c. c \<notin> set (columns (drop_col ''salary'' ex_raw))) loader_cols) = ''salary''"
    by (simp add: loader_cols_def numeric_cols_def drop_col_def ex_raw_def employee_cols_def)
  have a: "script ex_pandas defaults (drop_col ''salary'' ex_raw) = ([], Raised (KeyError [''salary'']))"
    using script_schema_error_only_marital_status
            [of "drop_col ''salary'' ex_raw" ex_pandas defaults, THEN conjunct1] n h
    by simp
  have m: "ErrorMsg [''marital_status''] \<in>
             set (fst (script ex_pandas defaults (drop_col ''marital_status'' ex_raw)))"
    by (simp add: script_no_marital)
  have "''marital_status'' \<notin> set (columns (drop_col ''marital_status'' ex_raw)) \<and>
        set loader_cols \<subseteq> set (columns (drop_col ''marital_status'' ex_raw))"
    using script_schema_error_only_marital_status
            [of "drop_col ''marital_status'' ex_raw" ex_pandas defaults, THEN conjunct2,
             rule_format, OF m]
    by blast
  then show ?thesis using a by blast
qed

text \<open>
  Claim C4. The validation of lines 59-63 names six required columns and reports the
  ones that are absent; the claim is that an absent required column leads to that
  report. In the file below every column is present but \<open>salary\<close>, so the list of the
  validation would be \<open>[salary]\<close>. The pass shows no such report: \<open>load_data\<close> reads
  \<open>salary\<close> at line 52 and the pass ends in its \<^verbatim>\<open>KeyError\<close> before line 59 is
  reached. The same holds for each required column but \<open>marital_status\<close>.
\<close>

theorem script_absent_salary_raises:
  "''salary'' \<in> set required_cols \<and>
   filter (\<lambda>c. c \<notin> set (columns (drop_col ''salary'' ex_raw))) required_cols = [''salary''] \<and>
   script ex_pandas defaults (drop_col ''salary'' ex_raw) = ([], Raised (KeyError [''salary'']))"
proof -
  have "load_data ex_pandas (drop_col ''salary'' ex_raw) = Inl (KeyError [''salary''])"
    by (simp add: load_data_Inl loader_cols_def numeric_cols_def drop_col_def ex_raw_def
          employee_cols_def)
  then have "script ex_pandas defaults (drop_col ''salary'' ex_raw) =
               ([], Raised (KeyError [''salary'']))"
    by (simp add: script_def)
  moreover have "''salary'' \<in> set required_cols"
    by (simp add: required_cols_def)
  moreover have "filter (\<lambda>c. c \<notin> set (columns (drop_col ''salary'' ex_raw))) required_cols =
                   [''salary'']"
    by (simp add: required_cols_def drop_col_def ex_raw_def employee_cols_def)
  ultimately show ?thesis by simp
qed

section \<open>Aggregates: grouped means and percentages\<close>













lemma count_list_dropna_map:
  "count_list (dropna (map f rs)) v = length (filter (\<lambda>r. f r = Some v) rs)"
proof (induction rs)
  case Nil
  then show ?case by simp
next
  case (Cons r rs)
  then show ?case by (cases "f r") auto
qed

lemma length_dropna_map:
  "length (dropna (map f rs)) = length (filter (\<lambda>r. f r \<noteq> None) rs)"
proof (induction rs)
  case Nil
  then show ?case by simp
next
  case (Cons r rs)
  then show ?case by (cases "f r") auto
qed

lemma value_counts_set:
  "set (value_counts xs) = (\<lambda>v. (v, count_list (dropna xs) v)) ` set (dropna xs)"
  by (simp add: value_counts_def set_unique)

lemma value_counts_distinct: "distinct (map fst (value_counts xs))"
proof -
  have "inj_on fst ((\<lambda>v. (v, count_list (dropna xs) v)) ` set (dropna xs))"
    by (auto simp: inj_on_def)
  moreover have "distinct (map (\<lambda>v. (v, count_list (dropna xs) v)) (unique (dropna xs)))"
    by (simp add: distinct_map distinct_unique inj_on_def)
  ultimately show ?thesis
    by (simp add: value_counts_def distinct_map set_unique)
qed

lemma value_counts_sorted:
  "sorted_wrt (\<lambda>p q. snd q \<le> snd p) (value_counts xs)"
proof -
  have "sorted (map (\<lambda>p. - int (snd p)) (value_counts xs))"
    unfolding value_counts_def by (rule sorted_sort_key)
  then show ?thesis by (simp add: sorted_map)
qed

lemma value_counts_sum: "sum_list (map snd (value_counts xs)) = length (dropna xs)"
proof -
  have d: "distinct (value_counts xs)"
    using value_counts_distinct [of xs] by (simp add: distinct_map)
  have "sum_list (map snd (value_counts xs)) = sum snd (set (value_counts xs))"
    using d by (rule sum_list_distinct_conv_sum_set)
  also have "\<dots> = sum (snd \<circ> (\<lambda>v. (v, count_list (dropna xs) v))) (set (dropna xs))"
    unfolding value_counts_set by (rule sum.reindex) (simp add: inj_on_def)
  also have "\<dots> = sum (count_list (dropna xs)) (set (dropna xs))"
    by (simp add: comp_def)
  also have "\<dots> = length (dropna xs)"
    by (rule sum_count_set) simp_all
  finally show ?thesis .
qed


lemma sorted_wrt_hd_max:
  "sorted_wrt (\<lambda>p q. f q \<le> f p) xs \<Longrightarrow> x \<in> set xs \<Longrightarrow> f x \<le> (f (hd xs) :: 'a :: order)"
  by (cases xs) auto

lemma sum_list_pct:
  "sum_list (map (\<lambda>p. of_nat (snd p) / n * 100) ps) = (of_nat (sum_list (map snd ps)) / n * 100 :: rat)"
  by (induction ps) (simp_all add: add_divide_distrib distrib_right)

lemma pct_error:
  assumes "0 \<le> q"
  shows "\<bar>fl64 (fl64 q * 100) - q * 100\<bar> \<le> q * 100 * (2 / 2 ^ 53 + 1 / 2 ^ 106)"
proof -
  define u :: rat where "u = 1 / 2 ^ 53"
  define a where "a = fl64 q"
  define p where "p = fl64 (a * 100)"
  have u: "0 \<le> u" by (simp add: u_def)
  have a0: "0 \<le> a" unfolding a_def using assms by (rule fl64_nonneg)
  have e1: "\<bar>a - q\<bar> \<le> q * u"
    using fl64_error [of q] assms by (simp add: a_def u_def)
  have e2: "\<bar>p - a * 100\<bar> \<le> a * 100 * u"
    using fl64_error [of "a * 100"] a0 by (simp add: p_def u_def)
  have "a \<le> q + q * u" using e1 by linarith
  then have "a * (100 * u) \<le> (q + q * u) * (100 * u)"
    using u by (intro mult_right_mono) simp_all
  then have e3: "a * 100 * u \<le> q * 100 * u + q * 100 * (u * u)"
    by (simp add: algebra_simps)
  have "\<bar>(a - q) * 100\<bar> = \<bar>a - q\<bar> * \<bar>100\<bar>" by (rule abs_mult)
  then have "\<bar>a * 100 - q * 100\<bar> = 100 * \<bar>a - q\<bar>"
    by (simp add: left_diff_distrib)
  moreover have "\<bar>p - q * 100\<bar> \<le> \<bar>p - a * 100\<bar> + \<bar>a * 100 - q * 100\<bar>" by linarith
  ultimately have "\<bar>p - q * 100\<bar> \<le> \<bar>p - a * 100\<bar> + 100 * \<bar>a - q\<bar>" by simp
  also have "\<dots> \<le> (q * 100 * u + q * 100 * (u * u)) + 100 * (q * u)"
  proof (rule add_mono)
    show "\<bar>p - a * 100\<bar> \<le> q * 100 * u + q * 100 * (u * u)"
      using e2 e3 by (rule order_trans)
    show "100 * \<bar>a - q\<bar> \<le> 100 * (q * u)"
      using e1 by simp
  qed
  also have "\<dots> = q * 100 * (2 * u + u * u)" by (simp add: algebra_simps)
  also have "2 * u + u * u = 2 / 2 ^ 53 + 1 / 2 ^ 106" by (simp add: u_def)
  finally show ?thesis by (simp add: p_def a_def)
qed

lemma pct_mono:
  assumes "a \<le> b" and "0 < n"
  shows "fl64 (fl64 (of_nat a / n) * 100) \<le> fl64 (fl64 (of_nat b / n) * 100)"
proof -
  have q: "(0::rat) \<le> of_nat a / n" using assms(2) by simp
  have "of_nat a / n \<le> of_nat b / n"
    using assms by (simp add: divide_right_mono)
  with q have le: "fl64 (of_nat a / n) \<le> fl64 (of_nat b / n)" by (rule fl64_mono)
  have "0 \<le> fl64 (of_nat a / n)" using q by (rule fl64_nonneg)
  then have "0 \<le> fl64 (of_nat a / n) * 100" by simp
  moreover have "fl64 (of_nat a / n) * 100 \<le> fl64 (of_nat b / n) * 100" using le by simp
  ultimately show ?thesis by (rule fl64_mono)
qed

lemma sum_list_abs_diff:
  "\<forall>x\<in>set xs. \<bar>f x - g x\<bar> \<le> h x \<Longrightarrow>
     \<bar>sum_list (map f xs) - sum_list (map g xs)\<bar> \<le> (sum_list (map h xs) :: rat)"
proof (induction xs)
  case Nil
  then show ?case by simp
next
  case (Cons x xs)
  then have "\<bar>f x - g x\<bar> \<le> h x"
    and "\<bar>sum_list (map f xs) - sum_list (map g xs)\<bar> \<le> sum_list (map h xs)"
    by simp_all
  then show ?case by (simp; linarith?)
qed

lemma sum_list_times: "sum_list (map (\<lambda>x. f x * c) xs) = sum_list (map f xs) * (c :: rat)"
  by (induction xs) (simp_all add: distrib_right)

text \<open>
  Claim C8, as amended. On a view in which at least one record has a score description,
  the percentages of line 191 have one entry per distinct non-missing description, each
  the number of its records divided by the number of records with a description, times
  100, both operations rounded to float64. They are in descending order, the first
  entry is a most frequent description, and they sum to 100 up to the rounding: the
  sum differs from 100 by at most \<open>100 * (2 ^ -52 + 2 ^ -106)\<close>. The counterexample
  further down has two parts: a view of two records whose descriptions are missing (the
  result is empty, it sums to 0, and reading its first entry raises), and a view with
  the counts 2 and 1, whose percentages 66.66666666666666 and 33.33333333333333 do not
  sum to 100.
\<close>

theorem perf_counts_percentages:
  assumes c: "''performance_score_desc'' \<in> set (columns view)"
    and ne: "\<exists>r\<in>set (rows view). r ''performance_score_desc'' \<noteq> None"
  shows "\<exists>res. perf_counts view = Inr res \<and> res \<noteq> [] \<and>
           distinct (map fst res) \<and>
           set (map fst res) = {v. \<exists>r\<in>set (rows view). r ''performance_score_desc'' = Some v} \<and>
           (\<forall>(v, p)\<in>set res.
              p = fl64 (fl64 (of_nat (length (filter (\<lambda>r. r ''performance_score_desc'' = Some v) (rows view))) /
                              of_nat (length (filter (\<lambda>r. r ''performance_score_desc'' \<noteq> None) (rows view))))
                        * 100)) \<and>
           \<bar>sum_list (map snd res) - 100\<bar> \<le> 100 * (2 / 2 ^ 53 + 1 / 2 ^ 106) \<and>
           sorted_wrt (\<lambda>p q. snd q \<le> snd p) res \<and>
           (\<forall>p\<in>set res. snd p \<le> snd (hd res)) \<and>
           (\<forall>v. length (filter (\<lambda>r. r ''performance_score_desc'' = Some v) (rows view))
                \<le> length (filter (\<lambda>r. r ''performance_score_desc'' = Some (fst (hd res))) (rows view)))"
proof -
  let ?D = "''performance_score_desc''"
  let ?xs = "map (\<lambda>r. r ?D) (rows view)"
  let ?vs = "dropna ?xs"
  let ?vc = "value_counts ?xs"
  let ?n = "of_nat (length ?vs) :: rat"
  let ?K = "2 / 2 ^ 53 + 1 / 2 ^ 106 :: rat"
  let ?f = "\<lambda>p :: val \<times> nat. fl64 (fl64 (of_nat (snd p) / ?n) * 100)"
  let ?g = "\<lambda>p :: val \<times> nat. of_nat (snd p) / ?n * 100"
  let ?res = "value_counts_pct ?xs"
  have res: "?res = map (\<lambda>p. (fst p, ?f p)) ?vc"
    by (simp add: value_counts_pct_def)
  have pc: "perf_counts view = Inr ?res"
    using c by (simp add: perf_counts_def getitem_def)
  have vs: "set ?vs = {v. \<exists>r\<in>set (rows view). r ?D = Some v}"
    by (rule set_dropna_map)
  have vs_ne: "?vs \<noteq> []"
  proof -
    from ne obtain r v where "r \<in> set (rows view)" "r ?D = Some v" by auto
    then have "v \<in> set ?vs" unfolding vs by blast
    then show ?thesis by auto
  qed
  then have n_pos: "0 < ?n" by simp
  have vc_set: "set ?vc = (\<lambda>v. (v, count_list ?vs v)) ` set ?vs"
    by (rule value_counts_set)
  have "set ?vc \<noteq> {}"
    unfolding vc_set using vs_ne by simp
  then have vc_ne: "?vc \<noteq> []" by auto
  have ne': "?res \<noteq> []" using vc_ne by (simp add: res)
  have fst_eq: "map fst ?res = map fst ?vc" by (simp add: res comp_def)
  have snd_eq: "map snd ?res = map ?f ?vc" by (simp add: res comp_def)
  have dist: "distinct (map fst ?res)"
    unfolding fst_eq by (rule value_counts_distinct)
  have keys: "set (map fst ?res) = {v. \<exists>r\<in>set (rows view). r ?D = Some v}"
    unfolding fst_eq using vc_set vs by (simp add: image_image)
  have vals: "\<forall>(v, p)\<in>set ?res.
              p = fl64 (fl64 (of_nat (length (filter (\<lambda>r. r ?D = Some v) (rows view))) /
                              of_nat (length (filter (\<lambda>r. r ?D \<noteq> None) (rows view))))
                        * 100)"
    by (auto simp: res vc_set count_list_dropna_map length_dropna_map)
  have "sum_list (map ?g ?vc) = of_nat (sum_list (map snd ?vc)) / ?n * 100"
    by (rule sum_list_pct)
  also have "\<dots> = ?n / ?n * 100" by (simp add: value_counts_sum)
  also have "\<dots> = 100" using n_pos by simp
  finally have exact: "sum_list (map ?g ?vc) = 100" .
  have "\<forall>p\<in>set ?vc. \<bar>?f p - ?g p\<bar> \<le> ?g p * ?K"
  proof
    fix p assume "p \<in> set ?vc"
    have "(0::rat) \<le> of_nat (snd p) / ?n" using n_pos by simp
    then show "\<bar>?f p - ?g p\<bar> \<le> ?g p * ?K" by (rule pct_error)
  qed
  then have "\<bar>sum_list (map ?f ?vc) - sum_list (map ?g ?vc)\<bar> \<le> sum_list (map (\<lambda>p. ?g p * ?K) ?vc)"
    by (rule sum_list_abs_diff)
  also have "sum_list (map (\<lambda>p. ?g p * ?K) ?vc) = sum_list (map ?g ?vc) * ?K"
    by (rule sum_list_times)
  finally have total: "\<bar>sum_list (map snd ?res) - 100\<bar> \<le> 100 * ?K"
    unfolding snd_eq exact .
  have "sorted_wrt (\<lambda>p q. ?f q \<le> ?f p) ?vc"
    by (rule sorted_wrt_mono_rel [OF _ value_counts_sorted]) (rule pct_mono [OF _ n_pos], assumption)
  then have srt: "sorted_wrt (\<lambda>p q. snd q \<le> snd p) ?res"
    by (simp add: res sorted_wrt_map)
  have top: "\<forall>p\<in>set ?res. snd p \<le> snd (hd ?res)"
    using sorted_wrt_hd_max [OF srt] by blast
  have hd_vc: "hd ?vc \<in> set ?vc" using vc_ne by simp
  then have hd_cnt: "snd (hd ?vc) = count_list ?vs (fst (hd ?vc))"
    unfolding vc_set by auto
  have hd_fst: "fst (hd ?res) = fst (hd ?vc)"
    using vc_ne by (simp add: res hd_map)
  have most: "length (filter (\<lambda>r. r ?D = Some v) (rows view))
                \<le> length (filter (\<lambda>r. r ?D = Some (fst (hd ?res))) (rows view))" for v
  proof (cases "v \<in> set ?vs")
    case True
    then have "(v, count_list ?vs v) \<in> set ?vc" unfolding vc_set by blast
    then have "count_list ?vs v \<le> snd (hd ?vc)"
      using sorted_wrt_hd_max [OF value_counts_sorted, of "(v, count_list ?vs v)" ?xs] by simp
    then show ?thesis
      by (simp add: hd_cnt hd_fst count_list_dropna_map)
  next
    case False
    then have "count_list ?vs v = 0" by (simp add: count_list_0_iff)
    then show ?thesis by (simp add: count_list_dropna_map)
  qed
  show ?thesis
    using pc ne' dist keys vals total srt top most by blast
qed

lemma load_ex_nodesc: "load_data ex_pandas ex_nodesc = Inr ex_nodesc"
proof (rule load_clean)
  show "set loader_cols \<subseteq> set (columns ex_nodesc)"
    by (simp add: loader_cols_def numeric_cols_def ex_nodesc_def employee_cols_def)
  have "load_row ex_pandas (rows ex_nodesc ! 0) = rows ex_nodesc ! 0"
    by (rule load_row_clean [where d = "''IT''" and g = "''M''"])
       (simp_all add: ex_nodesc_def mk_row_def strip_def is_space_def numeric_cols_def)
  moreover have "load_row ex_pandas (rows ex_nodesc ! 1) = rows ex_nodesc ! 1"
    by (rule load_row_clean [where d = "''IT''" and g = "''F''"])
       (simp_all add: ex_nodesc_def mk_row_def strip_def is_space_def numeric_cols_def)
  ultimately show "\<forall>r\<in>set (rows ex_nodesc). load_row ex_pandas r = r"
    by (simp add: ex_nodesc_def)
qed

lemma ex_nodesc_score_bounds: "score_bounds ex_nodesc = Inr (3, 4)"
  by (simp add: ctl_eval ex_nodesc_def employee_cols_def mk_row_def py_int_numeral)

lemma filtered_ex_nodesc: "filtered_view defaults ex_nodesc = Inr ex_nodesc"
proof -
  have "filter (\<lambda>r. r ''gender'' \<noteq> None \<and> r ''performance_score'' \<noteq> None \<and>
                     r ''marital_status'' \<noteq> None) (rows ex_nodesc) = rows ex_nodesc"
    by (simp add: ex_nodesc_def mk_row_def)
  moreover have "gender_options ex_nodesc = Inr [Str ''F'', Str ''M'']"
    "marital_options ex_nodesc = Inr [Str ''Married'', Str ''Single'']"
    by (simp_all add: ctl_eval ex_nodesc_def employee_cols_def mk_row_def)
  moreover have "filtered_view defaults ex_nodesc =
      Inr (ex_nodesc\<lparr>rows := filter (keep [Str ''F'', Str ''M''] (3, 4) [Str ''Married'', Str ''Single''])
                                  (rows ex_nodesc)\<rparr>)"
    using calculation(2,3) ex_nodesc_score_bounds
    by (simp add: filtered_view_def defaults_def df_f_def ex_nodesc_def employee_cols_def mk_row_def)
  moreover have "filter (keep [Str ''F'', Str ''M''] (3, 4) [Str ''Married'', Str ''Single''])
                   (rows ex_nodesc) = rows ex_nodesc"
    by (simp add: keep_def isin_def between_def ex_nodesc_def mk_row_def)
  ultimately show ?thesis by simp
qed

lemma pct_two_thirds: "fl64 (fl64 (2 / 3) * 100) = 4691249611844266 / 70368744177664"
  unfolding fl64_two_thirds
  by (rule fl64_eqI [where e = 6 and m = 4691249611844266]) simp_all

lemma pct_one_third: "fl64 (fl64 (1 / 3) * 100) = 4691249611844266 / 140737488355328"
  unfolding fl64_one_third
  by (rule fl64_eqI [where e = 5 and m = 4691249611844266]) simp_all

lemma perf_counts_ex_loaded:
  "perf_counts ex_loaded =
     Inr [(Str ''Meets'', 4691249611844266 / 70368744177664),
          (Str ''Exceeds'', 4691249611844266 / 140737488355328)]"
  by (simp add: perf_counts_def getitem_def value_counts_pct_def value_counts_def unique_def
        ex_eval pct_two_thirds pct_one_third)

lemma ex_loaded_default_view: "filtered_view defaults ex_loaded = Inr ex_loaded"
proof -
  have "filter (keep [Str ''F'', Str ''M'', Str ''nan''] (2, 4) [Str ''Married'', Str ''Single''])
          (rows ex_loaded) = rows ex_loaded"
    by (simp add: keep_def isin_def between_def ex_eval)
  then show ?thesis
    using ex_loaded_filterable
    by (simp add: filtered_view_def defaults_def ex_loaded_gender_options
          ex_loaded_score_bounds ex_loaded_marital_options df_f_def list_ex_iff)
qed

theorem perf_counts_percentages_counterexample:
  "load_data ex_pandas ex_nodesc = Inr ex_nodesc \<and>
   filtered_view defaults ex_nodesc = Inr ex_nodesc \<and>
   length (rows ex_nodesc) = 2 \<and>
   perf_counts ex_nodesc = Inr [] \<and>
   sum_list (map snd ([] :: (val \<times> rat) list)) = 0 \<and>
   conclusions ex_pandas ex_nodesc = Inl IndexError \<and>
   snd (script ex_pandas defaults ex_nodesc) = Raised IndexError \<and>
   load_data ex_pandas ex_raw = Inr ex_loaded \<and>
   filtered_view defaults ex_loaded = Inr ex_loaded \<and>
   perf_counts ex_loaded =
     Inr [(Str ''Meets'', 4691249611844266 / 70368744177664),
          (Str ''Exceeds'', 4691249611844266 / 140737488355328)] \<and>
   sum_list (map snd [(Str ''Meets'', 4691249611844266 / 70368744177664 :: rat),
                      (Str ''Exceeds'', 4691249611844266 / 140737488355328)]) \<noteq> 100"
proof -
  have p: "perf_counts ex_nodesc = Inr []"
    by (simp add: perf_counts_def getitem_def value_counts_pct_def value_counts_def unique_def
          ex_nodesc_def employee_cols_def mk_row_def)
  have m: "missing ex_nodesc = []"
    by (simp add: missing_def required_cols_def ex_nodesc_def employee_cols_def)
  have c: "conclusions ex_pandas ex_nodesc = Inl IndexError"
    using p by (simp add: conclusions_def)
  have "snd (run_sections (sections ex_pandas ex_nodesc)) = Raised IndexError"
    by (simp only: sections_def c)
       (simp add: metric_mean_def col_mean_def series_mean_def getitem_def
          chart_def counts_def avg_hours_def avg_by_score_def grouped_mean_def sort_index_def
          age_salary_def data_table_def table_cols_def value_counts_def
          unique_def less_eq_val_def less_val_def ex_nodesc_def employee_cols_def mk_row_def)
  moreover have l: "length (rows ex_nodesc) = 2"
    by (simp add: ex_nodesc_def)
  ultimately have s: "snd (script ex_pandas defaults ex_nodesc) = Raised IndexError"
    by (simp add: script_def load_ex_nodesc m after_validation_def filtered_ex_nodesc
          present_def)
  show ?thesis
    using l load_ex_nodesc filtered_ex_nodesc p c s load_ex_raw ex_loaded_default_view
      perf_counts_ex_loaded
    by simp
qed

theorem perf_counts_percentages_witness:
  "\<exists>res. perf_counts ex_loaded = Inr res \<and> res \<noteq> [] \<and>
      \<bar>sum_list (map snd res) - 100\<bar> \<le> 100 * (2 / 2 ^ 53 + 1 / 2 ^ 106) \<and>
      sorted_wrt (\<lambda>p q. snd q \<le> snd p) res \<and>
      length (filter (\<lambda>r. r ''performance_score_desc'' = Some (Str ''Meets'')) (rows ex_loaded))
        \<le> length (filter (\<lambda>r. r ''performance_score_desc'' = Some (fst (hd res))) (rows ex_loaded))"
proof -
  have c: "''performance_score_desc'' \<in> set (columns ex_loaded)"
    by (simp add: ex_loaded_def ex_raw_def employee_cols_def)
  have "rows ex_loaded ! 0 \<in> set (rows ex_loaded)"
    "(rows ex_loaded ! 0) ''performance_score_desc'' \<noteq> None"
    by (simp_all add: ex_eval)
  then have ne: "\<exists>r\<in>set (rows ex_loaded). r ''performance_score_desc'' \<noteq> None"
    by blast
  from perf_counts_percentages [OF c ne]
  obtain res where r: "perf_counts ex_loaded = Inr res" "res \<noteq> []"
    "\<bar>sum_list (map snd res) - 100\<bar> \<le> 100 * (2 / 2 ^ 53 + 1 / 2 ^ 106)"
    "sorted_wrt (\<lambda>p q. snd q \<le> snd p) res"
    "\<forall>v. length (filter (\<lambda>r. r ''performance_score_desc'' = Some v) (rows ex_loaded))
                \<le> length (filter (\<lambda>r. r ''performance_score_desc'' = Some (fst (hd res))) (rows ex_loaded))"
    by blast
  show ?thesis
    using r(1-4) r(5) [rule_format, of "Str ''Meets''"] by blast
qed

end
